theory Spec2Isabelle
  imports Complex_Main "HOL-Library.Log_Nat"
begin

section \<open>Data model\<close>

text \<open>
  The development embeds the application routes of \<^verbatim>\<open>server/routes/applications.js\<close>
  together with the Application schema (\<^verbatim>\<open>models/Application.js\<close>) and the part of the
  Job schema (\<^verbatim>\<open>models/Job.js\<close>) that the routes read and write.

  Object ids are natural numbers, dates are milliseconds as integers, and JavaScript strings
  are HOL strings. A field that may be \<^verbatim>\<open>undefined\<close> is an option.
\<close>

type_synonym object_id = nat
type_synonym date = int

text \<open>The \<^verbatim>\<open>role\<close> enum of the User schema: \<^verbatim>\<open>['student', 'recruiter', 'admin']\<close>.\<close>

datatype role = Student | Recruiter | Admin

text \<open>\<^verbatim>\<open>req.user\<close>, the authenticated caller: its \<^verbatim>\<open>_id\<close> and its \<^verbatim>\<open>role\<close>.\<close>

record user =
  u_id :: object_id
  u_role :: role

text \<open>One element of \<^verbatim>\<open>timeline\<close>: \<^verbatim>\<open>{status, date, note, updatedBy}\<close>.\<close>

record timeline_entry =
  t_status :: string
  t_date :: date
  t_note :: string
  t_updatedBy :: "object_id option"

text \<open>The \<^verbatim>\<open>interview\<close> sub-document.\<close>

record interview_rec =
  scheduled :: bool
  i_date :: date
  i_time :: string
  i_location :: string
  i_type :: string
  i_notes :: "string option"

record resume_rec =
  filename :: "string option"
  originalName :: "string option"
  path :: "string option"
  size :: "nat option"
  mimetype :: "string option"

record notes_rec =
  n_recruiter :: "string option"
  n_student :: "string option"
  n_admin :: "string option"

record feedback_rec =
  rating :: "nat option"
  comments :: "string option"
  strengths :: "string list"
  improvements :: "string list"

text \<open>
  An Application document as stored. \<^verbatim>\<open>createdAt\<close> and \<^verbatim>\<open>updatedAt\<close> come from the
  schema option \<^verbatim>\<open>timestamps: true\<close>.
\<close>

record application =
  a_id :: object_id
  job :: object_id
  student :: object_id
  recruiter :: object_id
  status :: string
  coverLetter :: "string option"
  resume :: "resume_rec option"
  answers :: "(string \<times> string) list"
  app_notes :: "notes_rec option"
  timeline :: "timeline_entry list"
  interview :: "interview_rec option"
  feedback :: "feedback_rec option"
  createdAt :: date
  updatedAt :: date

text \<open>
  A value of a Number path as the store holds it: \<^verbatim>\<open>null\<close>, a finite double (given by the
  rational it denotes) or an infinity. The Number cast turns everything else away (NaN
  included), so no other value is ever stored.
\<close>

datatype js_number = Null | Num rat | PosInfinity | NegInfinity

text \<open>
  The fields of a Job document that the application routes read, write or, on saving it,
  validate: the paths the schema declares \<^verbatim>\<open>required\<close>, the status, the deadline and the
  counter. The paths of a Job that are neither required nor touched here (salary,
  requirements, benefits, flags, the other counters) are left out.
\<close>

record job_rec =
  j_id :: object_id
  title :: "string option"
  description :: "string option"
  company :: "string option"
  j_recruiter :: object_id
  location :: "string option"
  jobType :: "string option"
  department :: "string option"
  j_status :: string
  applicationDeadline :: "date option"
  applicationCount :: js_number

text \<open>
  The collections: the applications, the jobs, and of the users their \<^verbatim>\<open>_id\<close>s, which is
  what populating a reference needs. \<^verbatim>\<open>next_id\<close> stands for the ObjectId generator: the id
  that the next created document receives.
\<close>

record state =
  applications :: "application list"
  jobs :: "job_rec list"
  users :: "object_id list"
  next_id :: object_id

text \<open>
  An id that arrives in a request body, where no middleware has checked its format:
  \<^verbatim>\<open>undefined\<close> or \<^verbatim>\<open>null\<close>, a value that casts to an ObjectId, or a value that does not.
  (An id in the path of a route has passed \<^verbatim>\<open>validateObjectId\<close> and is an \<open>object_id\<close>.)
\<close>

datatype body_id = Absent | Id object_id | Uncastable

text \<open>
  The outcomes other than success. The routes answer with an HTTP status and a message; the
  constructors name them as follows:
  404 is \<open>NotFound\<close>; 403 is \<open>Forbidden\<close>; 400 "Invalid status" is \<open>InvalidStatus\<close>;
  400 "This job is no longer accepting applications" and
  400 "Cannot withdraw application at this stage" are \<open>InvalidState\<close>;
  400 "Application deadline has passed" is \<open>Expired\<close>;
  400 "You have already applied for this job" is \<open>Conflict\<close>;
  400 "Validation failed" is \<open>ValidationError\<close>;
  500 "Server error", the \<^verbatim>\<open>catch\<close> branch of every handler, is \<open>ServerError\<close>.
\<close>

datatype error =
  NotFound | Forbidden | InvalidStatus | InvalidState | Expired | Conflict
  | ValidationError | ServerError

section \<open>Documents in memory\<close>

text \<open>
  A document loaded or constructed by the object mapper: its fields, whether it is new,
  the paths that have been assigned a different value since loading (what
  \<^verbatim>\<open>isModified\<close> reports), and the paths whose assigned value could not be cast to the
  schema type. Assigning to a path the value it already has does not mark it modified.
\<close>

record application_doc =
  data :: application
  isNew :: bool
  modifiedPaths :: "string list"
  castErrors :: "string list"

definition isModified :: "string \<Rightarrow> application_doc \<Rightarrow> bool" where
  "isModified p d = (p \<in> set (modifiedPaths d))"

definition markModified :: "string \<Rightarrow> application_doc \<Rightarrow> application_doc" where
  "markModified p d = d\<lparr>modifiedPaths := modifiedPaths d @ [p]\<rparr>"

text \<open>A document as \<^verbatim>\<open>findById\<close> hands it out.\<close>

definition loaded :: "application \<Rightarrow> application_doc" where
  "loaded a = \<lparr>data = a, isNew = False, modifiedPaths = [], castErrors = []\<rparr>"

text \<open>\<^verbatim>\<open>application.status = v\<close>\<close>

definition set_status :: "string \<Rightarrow> application_doc \<Rightarrow> application_doc" where
  "set_status v d =
     (let d' = d\<lparr>data := (data d)\<lparr>status := v\<rparr>\<rparr>
      in if isNew d \<or> status (data d) \<noteq> v then markModified ''status'' d' else d')"

text \<open>\<^verbatim>\<open>application.timeline.push(e)\<close>\<close>

definition timeline_push :: "timeline_entry \<Rightarrow> application_doc \<Rightarrow> application_doc" where
  "timeline_push e d =
     markModified ''timeline'' (d\<lparr>data := (data d)\<lparr>timeline := timeline (data d) @ [e]\<rparr>\<rparr>)"

text \<open>
  \<^verbatim>\<open>application.interview = {scheduled: true, date: new Date(date), time, location, type, notes}\<close>.
  The date arrives already constructed; \<open>None\<close> is an Invalid Date, which the Date path
  refuses to cast: the path keeps its old value and the error surfaces when the document
  is validated.
\<close>

definition set_interview ::
  "date option \<Rightarrow> string \<Rightarrow> string \<Rightarrow> string \<Rightarrow> string option \<Rightarrow> application_doc \<Rightarrow> application_doc"
where
  "set_interview dt tm loc ty nts d =
     (case dt of
        None \<Rightarrow> d\<lparr>castErrors := castErrors d @ [''interview.date'']\<rparr>
      | Some t \<Rightarrow>
          (let iv = \<lparr>scheduled = True, i_date = t, i_time = tm, i_location = loc,
                     i_type = ty, i_notes = nts\<rparr>;
               d' = d\<lparr>data := (data d)\<lparr>interview := Some iv\<rparr>\<rparr>
           in if isNew d \<or> interview (data d) \<noteq> Some iv then markModified ''interview'' d' else d'))"

text \<open>The enums of the Application schema.\<close>

definition status_enum :: "string list" where
  "status_enum = [''pending'', ''under_review'', ''interview'', ''approved'', ''rejected'', ''withdrawn'']"

definition interview_type_enum :: "string list" where
  "interview_type_enum = [''phone'', ''video'', ''in-person'']"

text \<open>
  Schema validation, run by \<^verbatim>\<open>save\<close> before the \<^verbatim>\<open>pre('save')\<close> hooks: a cast error
  fails it, and the validators of the paths that are new or modified are run: the
  \<^verbatim>\<open>status\<close> enum, \<^verbatim>\<open>maxlength\<close> 2000 of \<^verbatim>\<open>coverLetter\<close>, the
  \<^verbatim>\<open>interview.type\<close> enum and the range 1 to 5 of \<^verbatim>\<open>feedback.rating\<close>.
\<close>

definition validates :: "application_doc \<Rightarrow> bool" where
  "validates d =
     (let a = data d; chk = (\<lambda>p. isNew d \<or> isModified p d) in
      castErrors d = []
      \<and> (\<not> chk ''status'' \<or> status a \<in> set status_enum)
      \<and> (\<not> chk ''coverLetter'' \<or> (case coverLetter a of None \<Rightarrow> True | Some c \<Rightarrow> length c \<le> 2000))
      \<and> (\<not> chk ''interview'' \<or> (case interview a of None \<Rightarrow> True | Some iv \<Rightarrow> i_type iv \<in> set interview_type_enum))
      \<and> (\<not> chk ''feedback'' \<or>
            (case feedback a of None \<Rightarrow> True
             | Some f \<Rightarrow> (case rating f of None \<Rightarrow> True | Some r \<Rightarrow> 1 \<le> r \<and> r \<le> 5))))"

text \<open>
  The hook of the schema:
  \<^verbatim>\<open>applicationSchema.pre('save', function(next) {
    if (this.isModified('status') && !this.isNew) {
      this.timeline.push({status: this.status, date: new Date(),
                          note: `Status changed to ${this.status}`});
    }
    next();
  })\<close>
\<close>

definition pre_save :: "date \<Rightarrow> application_doc \<Rightarrow> application_doc" where
  "pre_save now d =
     (if isModified ''status'' d \<and> \<not> isNew d
      then timeline_push \<lparr>t_status = status (data d), t_date = now,
                           t_note = ''Status changed to '' @ status (data d),
                           t_updatedBy = None\<rparr> d
      else d)"

section \<open>Collections\<close>

text \<open>\<^verbatim>\<open>Application.findById(id)\<close>\<close>

definition Application_findById :: "state \<Rightarrow> object_id \<Rightarrow> application option" where
  "Application_findById s i = find (\<lambda>a. a_id a = i) (applications s)"

text \<open>\<^verbatim>\<open>Application.findOne({job: jobId, student: uid})\<close>\<close>

definition Application_findOne :: "state \<Rightarrow> object_id \<Rightarrow> object_id \<Rightarrow> application option" where
  "Application_findOne s jobId uid = find (\<lambda>a. job a = jobId \<and> student a = uid) (applications s)"

text \<open>\<^verbatim>\<open>Job.findById(jobId)\<close>\<close>

definition Job_findById :: "state \<Rightarrow> object_id \<Rightarrow> job_rec option" where
  "Job_findById s i = find (\<lambda>j. j_id j = i) (jobs s)"

text \<open>Writing a document back replaces the stored document that has its \<^verbatim>\<open>_id\<close>.\<close>

fun replace_application :: "application \<Rightarrow> application list \<Rightarrow> application list" where
  "replace_application a [] = []"
| "replace_application a (b # bs) =
     (if a_id b = a_id a then a # bs else b # replace_application a bs)"

fun replace_job :: "job_rec \<Rightarrow> job_rec list \<Rightarrow> job_rec list" where
  "replace_job j [] = []"
| "replace_job j (k # ks) = (if j_id k = j_id j then j # ks else k # replace_job j ks)"

text \<open>
  \<^verbatim>\<open>doc.save()\<close>: validation, then the hook, then the write with \<^verbatim>\<open>updatedAt\<close>
  refreshed. A new document is inserted, and the unique index
  \<^verbatim>\<open>applicationSchema.index({job: 1, student: 1}, {unique: true})\<close> rejects the insert when
  the pair is taken. A rejected save throws, which every handler turns into
  \<open>ServerError\<close>.
\<close>

definition Application_save ::
  "date \<Rightarrow> state \<Rightarrow> application_doc \<Rightarrow> error + (application \<times> state)" where
  "Application_save now s d =
     (if \<not> validates d then Inl ServerError
      else
        (let a = (data (pre_save now d))\<lparr>updatedAt := now\<rparr> in
         if isNew d then
           (if list_ex (\<lambda>b. job b = job a \<and> student b = student a) (applications s)
            then Inl ServerError
            else Inr (a, s\<lparr>applications := applications s @ [a], next_id := Suc (next_id s)\<rparr>))
         else Inr (a, s\<lparr>applications := replace_application a (applications s)\<rparr>)))"

text \<open>
  \<^verbatim>\<open>Application.create({job, student, recruiter, coverLetter, answers, timeline})\<close>:
  a new document with the given fields, the schema default \<^verbatim>\<open>'pending'\<close> for
  \<^verbatim>\<open>status\<close>, and everything else unset, then saved. The cover letter and the answers
  are given at the types of their paths, a string and a list of question and answer.
\<close>

definition Application_create ::
  "date \<Rightarrow> state \<Rightarrow> object_id \<Rightarrow> object_id \<Rightarrow> object_id \<Rightarrow> string option
     \<Rightarrow> (string \<times> string) list \<Rightarrow> timeline_entry list \<Rightarrow> error + (application \<times> state)" where
  "Application_create now s jobId uid rid cl ans entries =
     Application_save now s
       \<lparr>data = \<lparr>a_id = next_id s, job = jobId, student = uid, recruiter = rid,
                  status = ''pending'', coverLetter = cl, resume = None, answers = ans,
                  app_notes = None, timeline = entries, interview = None, feedback = None,
                  createdAt = now, updatedAt = now\<rparr>,
        isNew = True,
        modifiedPaths = [''job'', ''student'', ''recruiter'', ''coverLetter'', ''answers'', ''timeline''],
        castErrors = []\<rparr>"

text \<open>
  \<^verbatim>\<open>populate('recruiter')\<close> on a loaded job: the user document that the reference names, or
  \<^verbatim>\<open>null\<close> when the users collection has none. Of the populated user the routes read the
  \<^verbatim>\<open>_id\<close> only.
\<close>

definition populate_recruiter :: "state \<Rightarrow> job_rec \<Rightarrow> object_id option" where
  "populate_recruiter s j = find (\<lambda>u. u = j_recruiter j) (users s)"

subsection \<open>JavaScript numbers\<close>

text \<open>
  The binary exponent of a rational other than 0, that is \<open>\<lfloor>log\<^sub>2 \<bar>a\<bar>\<rfloor>\<close>, from the bit lengths
  of its numerator and denominator.
\<close>

definition exponent :: "rat \<Rightarrow> int" where
  "exponent a =
     (let (p, q) = quotient_of \<bar>a\<bar>; d = bitlen p - bitlen q
      in if 2 powi d \<le> \<bar>a\<bar> then d else d - 1)"

text \<open>Rounding to the nearest integer, a tie going to the even one.\<close>

definition round_half_even :: "rat \<Rightarrow> int" where
  "round_half_even x =
     (let f = \<lfloor>x\<rfloor>; d = x - of_int f
      in if d < 1 / 2 then f else if 1 / 2 < d then f + 1 else if even f then f else f + 1)"

text \<open>
  The double that an exact result is rounded to (IEEE 754 binary64, round to nearest, ties
  to even): 53 significant bits, exponents from -1022 (below which the spacing stays that of
  the subnormals) to 1023, and an infinity when the rounded magnitude reaches \<open>2\<^sup>1\<^sup>0\<^sup>2\<^sup>4\<close>.
\<close>

definition to_double :: "rat \<Rightarrow> js_number" where
  "to_double y =
     (if y = 0 then Num 0
      else
        (let e = max (exponent y) (- 1022);
             u = 2 powi (e - 52);
             r = of_int (round_half_even (\<bar>y\<bar> / u)) * u
         in if 2 powi 1024 \<le> r then (if 0 < y then PosInfinity else NegInfinity)
            else Num (sgn y * r)))"

text \<open>
  \<^verbatim>\<open>x + 1\<close> of JavaScript on a stored number: \<^verbatim>\<open>null\<close> counts as 0, a finite double gives
  the exact sum rounded to a double, and an infinity stays.
\<close>

definition add_one :: "js_number \<Rightarrow> js_number" where
  "add_one x =
     (case x of
        Null \<Rightarrow> Num 1
      | Num v \<Rightarrow> to_double (v + 1)
      | PosInfinity \<Rightarrow> PosInfinity
      | NegInfinity \<Rightarrow> NegInfinity)"

subsection \<open>Saving a job\<close>

text \<open>The \<^verbatim>\<open>jobType\<close> enum of the Job schema.\<close>

definition jobType_enum :: "string list" where
  "jobType_enum = [''Full-time'', ''Part-time'', ''Internship'', ''Contract'', ''Remote'']"

text \<open>A \<^verbatim>\<open>required\<close> String path holds a string that is not empty.\<close>

definition required_string :: "string option \<Rightarrow> bool" where
  "required_string v = (case v of None \<Rightarrow> False | Some x \<Rightarrow> x \<noteq> [])"

text \<open>
  The validation that \<^verbatim>\<open>job.save()\<close> runs when only the counter has been assigned: the
  validators of the required paths (\<^verbatim>\<open>title\<close> with \<^verbatim>\<open>maxlength\<close> 200, \<^verbatim>\<open>description\<close> with
  \<^verbatim>\<open>maxlength\<close> 5000, \<^verbatim>\<open>company\<close>, \<^verbatim>\<open>location\<close>, \<^verbatim>\<open>jobType\<close> with its enum,
  \<^verbatim>\<open>department\<close>; the \<^verbatim>\<open>recruiter\<close> reference is present by its type), and those of the
  counter, a Number path without validators.
\<close>

definition Job_validates :: "job_rec \<Rightarrow> bool" where
  "Job_validates j =
     (required_string (title j) \<and> (case title j of None \<Rightarrow> True | Some x \<Rightarrow> length x \<le> 200)
      \<and> required_string (description j)
      \<and> (case description j of None \<Rightarrow> True | Some x \<Rightarrow> length x \<le> 5000)
      \<and> required_string (company j)
      \<and> required_string (location j)
      \<and> (case jobType j of None \<Rightarrow> False | Some x \<Rightarrow> x \<in> set jobType_enum)
      \<and> required_string (department j))"

text \<open>
  \<^verbatim>\<open>job.save()\<close>: a job that does not validate is rejected, which throws; otherwise the
  stored document with the job's \<^verbatim>\<open>_id\<close> is replaced.
\<close>

definition Job_save :: "state \<Rightarrow> job_rec \<Rightarrow> error + state" where
  "Job_save s j =
     (if \<not> Job_validates j then Inl ServerError
      else Inr (s\<lparr>jobs := replace_job j (jobs s)\<rparr>))"

text \<open>
  \<^verbatim>\<open>jobSchema.methods.incrementApplicationCount = function() {
    this.applicationCount += 1;
    return this.save();
  }\<close>
\<close>

definition incrementApplicationCount :: "state \<Rightarrow> job_rec \<Rightarrow> error + state" where
  "incrementApplicationCount s j =
     Job_save s (j\<lparr>applicationCount := add_one (applicationCount j)\<rparr>)"

section \<open>Middleware\<close>

text \<open>
  Modelled from the spec: \<^verbatim>\<open>authorize(...roles)\<close> of \<^verbatim>\<open>middleware/auth.js\<close>, which the
  repository's routes import and which is not among the sources. The spec describes it as a
  role check on the acting principal; a caller whose role is not listed receives
  \<open>Forbidden\<close>. \<^verbatim>\<open>protect\<close> authenticates the caller and yields \<^verbatim>\<open>req.user\<close>, which is
  a parameter of every route here.
\<close>

definition authorize :: "role list \<Rightarrow> user \<Rightarrow> bool" where
  "authorize roles u = (u_role u \<in> set roles)"

text \<open>
  \<^verbatim>\<open>validateApplication\<close>: \<^verbatim>\<open>body('coverLetter').optional().isLength({max: 2000})\<close>.
  \<^verbatim>\<open>validateObjectId\<close> checks the format of \<^verbatim>\<open>param('id')\<close>, the id in the path of a
  route, which is why such an id is an \<open>object_id\<close> here. It does not look at the body.
\<close>

definition validateApplication :: "string option \<Rightarrow> bool" where
  "validateApplication cl = (case cl of None \<Rightarrow> True | Some c \<Rightarrow> length c \<le> 2000)"

section \<open>Routes\<close>

text \<open>
  Every route takes the clock reading \<open>now\<close> (the value of \<^verbatim>\<open>new Date()\<close> during the
  request), the state and the caller, and returns its answer with the state it leaves.
\<close>

text \<open>
  \<^verbatim>\<open>router.post('/', protect, authorize('student'), validateApplication, ...)\<close>.
  \<^verbatim>\<open>jobId\<close> is read from the body. \<^verbatim>\<open>Job.findById(jobId)\<close> throws when the id does not
  cast, and finds nothing for a missing id. The populated recruiter is read when the
  argument of \<^verbatim>\<open>Application.create\<close> is built, after the four checks:
  \<^verbatim>\<open>job.recruiter._id\<close> throws when the reference did not resolve. Everything thrown ends
  in the handler's \<^verbatim>\<open>catch\<close>, with whatever has been written by then left in place. The
  \<^verbatim>\<open>populate\<close> of the answer at the end only reads.
\<close>

definition submitApplication ::
  "date \<Rightarrow> state \<Rightarrow> user \<Rightarrow> body_id \<Rightarrow> string option \<Rightarrow> (string \<times> string) list
     \<Rightarrow> (error + application) \<times> state" where
  "submitApplication now s caller jobId cl ans =
     (if \<not> authorize [Student] caller then (Inl Forbidden, s)
      else if \<not> validateApplication cl then (Inl ValidationError, s)
      else
        (case jobId of
           Uncastable \<Rightarrow> (Inl ServerError, s)
         | Absent \<Rightarrow> (Inl NotFound, s)
         | Id jid \<Rightarrow>
             (case Job_findById s jid of
                None \<Rightarrow> (Inl NotFound, s)
              | Some j \<Rightarrow>
                  if j_status j \<noteq> ''active'' then (Inl InvalidState, s)
                  else if (case applicationDeadline j of None \<Rightarrow> False | Some dl \<Rightarrow> now > dl)
                    then (Inl Expired, s)
                  else
                    (case Application_findOne s jid (u_id caller) of
                       Some existingApplication \<Rightarrow> (Inl Conflict, s)
                     | None \<Rightarrow>
                         (case populate_recruiter s j of
                            None \<Rightarrow> (Inl ServerError, s)
                          | Some rid \<Rightarrow>
                              (case Application_create now s jid (u_id caller) rid cl ans
                                      [\<lparr>t_status = ''pending'', t_date = now,
                                        t_note = ''Application submitted'',
                                        t_updatedBy = None\<rparr>] of
                                 Inl e \<Rightarrow> (Inl e, s)
                               | Inr (a, s1) \<Rightarrow>
                                   (case incrementApplicationCount s1 j of
                                      Inl e \<Rightarrow> (Inl e, s1)
                                    | Inr s2 \<Rightarrow> (Inr a, s2))))))))"

text \<open>
  \<^verbatim>\<open>router.get('/:id', protect, validateObjectId, ...)\<close>. The student and recruiter
  references of a stored application were taken from the caller and from the populated
  recruiter of the job when it was created, and no route removes a user or rewrites them:
  populating them yields the documents, of which the route reads the \<^verbatim>\<open>_id\<close>.
\<close>

definition getApplication :: "state \<Rightarrow> user \<Rightarrow> object_id \<Rightarrow> error + application" where
  "getApplication s caller i =
     (case Application_findById s i of
        None \<Rightarrow> Inl NotFound
      | Some a \<Rightarrow>
          (let hasAccess = (student a = u_id caller \<or> recruiter a = u_id caller
                            \<or> u_role caller = Admin)
           in if \<not> hasAccess then Inl Forbidden else Inr a))"

text \<open>The list \<^verbatim>\<open>validStatuses\<close> of the status route.\<close>

definition validStatuses :: "string list" where
  "validStatuses = [''pending'', ''under_review'', ''interview'', ''approved'', ''rejected'']"

text \<open>
  \<^verbatim>\<open>note || `Status changed to ${status}`\<close>: a missing or empty note is falsy and gives
  the default.
\<close>

definition note_or_default :: "string option \<Rightarrow> string \<Rightarrow> string" where
  "note_or_default note st =
     (case note of
        None \<Rightarrow> ''Status changed to '' @ st
      | Some n \<Rightarrow> if n = [] then ''Status changed to '' @ st else n)"

text \<open>\<^verbatim>\<open>router.put('/:id/status', protect, authorize('recruiter', 'admin'), validateObjectId, ...)\<close>\<close>

definition updateStatus ::
  "date \<Rightarrow> state \<Rightarrow> user \<Rightarrow> object_id \<Rightarrow> string \<Rightarrow> string option
     \<Rightarrow> (error + application) \<times> state" where
  "updateStatus now s caller i st note =
     (if \<not> authorize [Recruiter, Admin] caller then (Inl Forbidden, s)
      else if st \<notin> set validStatuses then (Inl InvalidStatus, s)
      else
        (case Application_findById s i of
           None \<Rightarrow> (Inl NotFound, s)
         | Some a \<Rightarrow>
             if u_role caller = Recruiter \<and> recruiter a \<noteq> u_id caller then (Inl Forbidden, s)
             else
               (let d1 = set_status st (loaded a);
                    d2 = timeline_push \<lparr>t_status = st, t_date = now,
                                         t_note = note_or_default note st,
                                         t_updatedBy = Some (u_id caller)\<rparr> d1
                in case Application_save now s d2 of
                     Inl e \<Rightarrow> (Inl e, s)
                   | Inr (a', s') \<Rightarrow> (Inr a', s'))))"

text \<open>
  The body of an interview request. \<^verbatim>\<open>r_date\<close> is the text sent by the client.
\<close>

record interview_request =
  r_date :: string
  r_time :: string
  r_location :: string
  r_type :: string
  r_notes :: "string option"

text \<open>
  \<^verbatim>\<open>router.put('/:id/interview', protect, authorize('recruiter', 'admin'), validateObjectId, ...)\<close>.
  \<open>newDate\<close> is the Date constructor applied to a string; \<open>None\<close> is an Invalid Date.
\<close>

definition scheduleInterview ::
  "(string \<Rightarrow> date option) \<Rightarrow> date \<Rightarrow> state \<Rightarrow> user \<Rightarrow> object_id \<Rightarrow> interview_request
     \<Rightarrow> (error + application) \<times> state" where
  "scheduleInterview newDate now s caller i req =
     (if \<not> authorize [Recruiter, Admin] caller then (Inl Forbidden, s)
      else
        (case Application_findById s i of
           None \<Rightarrow> (Inl NotFound, s)
         | Some a \<Rightarrow>
             if u_role caller = Recruiter \<and> recruiter a \<noteq> u_id caller then (Inl Forbidden, s)
             else
               (let d1 = set_interview (newDate (r_date req)) (r_time req) (r_location req)
                           (r_type req) (r_notes req) (loaded a);
                    d2 = set_status ''interview'' d1;
                    d3 = timeline_push
                           \<lparr>t_status = ''interview'', t_date = now,
                            t_note = ''Interview scheduled for '' @ r_date req @ '' at '' @ r_time req,
                            t_updatedBy = Some (u_id caller)\<rparr> d2
                in case Application_save now s d3 of
                     Inl e \<Rightarrow> (Inl e, s)
                   | Inr (a', s') \<Rightarrow> (Inr a', s'))))"

text \<open>\<^verbatim>\<open>router.put('/:id/withdraw', protect, authorize('student'), validateObjectId, ...)\<close>\<close>

definition withdraw :: "date \<Rightarrow> state \<Rightarrow> user \<Rightarrow> object_id \<Rightarrow> (error + unit) \<times> state" where
  "withdraw now s caller i =
     (if \<not> authorize [Student] caller then (Inl Forbidden, s)
      else
        (case Application_findById s i of
           None \<Rightarrow> (Inl NotFound, s)
         | Some a \<Rightarrow>
             if student a \<noteq> u_id caller then (Inl Forbidden, s)
             else if status a \<in> set [''approved'', ''rejected''] then (Inl InvalidState, s)
             else
               (let d1 = set_status ''withdrawn'' (loaded a);
                    d2 = timeline_push \<lparr>t_status = ''withdrawn'', t_date = now,
                                         t_note = ''Application withdrawn by student'',
                                         t_updatedBy = None\<rparr> d1
                in case Application_save now s d2 of
                     Inl e \<Rightarrow> (Inl e, s)
                   | Inr (a', s') \<Rightarrow> (Inr (), s'))))"

section \<open>The server\<close>

text \<open>
  The requests that reach the application routes. \<open>JobsWrite\<close> stands for every other
  route of the server that writes the jobs collection (posting, editing, deleting,
  moderation): it may leave any jobs behind. \<open>Register\<close> stands for the creation of a user
  account; no route removes one. No route other than the ones above writes the
  applications, and the references of an application are taken from documents that
  existed when it was created.
\<close>

datatype request =
    PostApplication date user body_id "string option" "(string \<times> string) list"
  | GetApplication user object_id
  | PutStatus date user object_id string "string option"
  | PutInterview date user object_id interview_request
  | PutWithdraw date user object_id
  | JobsWrite "job_rec list"
  | Register object_id

fun handle :: "(string \<Rightarrow> date option) \<Rightarrow> state \<Rightarrow> request \<Rightarrow> state" where
  "handle newDate s (PostApplication now c j cl ans) = snd (submitApplication now s c j cl ans)"
| "handle newDate s (GetApplication c i) = s"
| "handle newDate s (PutStatus now c i st note) = snd (updateStatus now s c i st note)"
| "handle newDate s (PutInterview now c i req) = snd (scheduleInterview newDate now s c i req)"
| "handle newDate s (PutWithdraw now c i) = snd (withdraw now s c i)"
| "handle newDate s (JobsWrite js) = s\<lparr>jobs := js\<rparr>"
| "handle newDate s (Register u) = s\<lparr>users := users s @ [u]\<rparr>"

definition serve :: "(string \<Rightarrow> date option) \<Rightarrow> state \<Rightarrow> request list \<Rightarrow> state" where
  "serve newDate s rs = foldl (handle newDate) s rs"

text \<open>The number of stored applications of a student for a job.\<close>

definition count_applications :: "state \<Rightarrow> object_id \<Rightarrow> object_id \<Rightarrow> nat" where
  "count_applications s jobId uid =
     length (filter (\<lambda>a. job a = jobId \<and> student a = uid) (applications s))"

text \<open>
  The keys of the index on \<^verbatim>\<open>{job, student}\<close> in the order of the collection, and what
  the index being unique says of them.
\<close>

definition pairs :: "state \<Rightarrow> (object_id \<times> object_id) list" where
  "pairs s = map (\<lambda>a. (job a, student a)) (applications s)"

definition unique_job_student :: "state \<Rightarrow> bool" where
  "unique_job_student s = distinct (pairs s)"

section \<open>A scenario\<close>

text \<open>
  Concrete data on which the theorems below are instantiated: an active job \<open>job_J\<close> without
  deadline owned by the recruiter \<open>recruiter_R\<close>, a student \<open>student_S\<close>, a second
  recruiter, an administrator (all four with an account), the state \<open>state_1\<close> that the
  student's application at time 5 leaves behind the empty \<open>state_0\<close>, and an interview
  request.
\<close>


definition job_J :: job_rec where
  "job_J = \<lparr>j_id = 1, title = Some ''Frontend Developer Intern'',
            description = Some ''Build and test the user interface of the web platform.'',
            company = Some ''TechCorp'', j_recruiter = 20, location = Some ''Remote'',
            jobType = Some ''Internship'', department = Some ''Engineering'',
            j_status = ''active'', applicationDeadline = None, applicationCount = Num 0\<rparr>"

definition student_S :: user where "student_S = \<lparr>u_id = 10, u_role = Student\<rparr>"
definition recruiter_R :: user where "recruiter_R = \<lparr>u_id = 20, u_role = Recruiter\<rparr>"
definition recruiter_Q :: user where "recruiter_Q = \<lparr>u_id = 21, u_role = Recruiter\<rparr>"
definition admin_A :: user where "admin_A = \<lparr>u_id = 30, u_role = Admin\<rparr>"

definition state_0 :: state where
  "state_0 = \<lparr>applications = [], jobs = [job_J], users = [10, 20, 21, 30], next_id = 100\<rparr>"

definition app_1 :: application where
  "app_1 = \<lparr>a_id = 100, job = 1, student = 10, recruiter = 20, status = ''pending'',
            coverLetter = None, resume = None, answers = [], app_notes = None,
            timeline = [\<lparr>t_status = ''pending'', t_date = 5,
                         t_note = ''Application submitted'', t_updatedBy = None\<rparr>],
            interview = None, feedback = None, createdAt = 5, updatedAt = 5\<rparr>"

definition state_1 :: state where
  "state_1 = \<lparr>applications = [app_1], jobs = [job_J\<lparr>applicationCount := Num 1\<rparr>],
              users = [10, 20, 21, 30], next_id = 101\<rparr>"

definition request_I :: interview_request where
  "request_I = \<lparr>r_date = ''2024-01-25'', r_time = ''2:00 PM'', r_location = ''Video call'',
                r_type = ''video'', r_notes = None\<rparr>"

definition date_of :: "string \<Rightarrow> date option" where
  "date_of x = (if x = ''2024-01-25'' then Some 1706140800000 else None)"

text \<open>The same state with the application already approved.\<close>

definition state_approved :: state where
  "state_approved = state_1\<lparr>applications := [app_1\<lparr>status := ''approved''\<rparr>]\<rparr>"

text \<open>A job whose application deadline is the instant 5, and a state that holds it.\<close>

definition job_D :: job_rec where
  "job_D = job_J\<lparr>applicationDeadline := Some 5\<rparr>"

definition state_D :: state where
  "state_D = \<lparr>applications = [], jobs = [job_D], users = [10, 20, 21, 30], next_id = 100\<rparr>"

text \<open>
  The job of the scenario with its counter at \<open>2\<^sup>5\<^sup>3\<close>, as the job update route stores it
  when the body of the request says so.
\<close>

definition job_B :: job_rec where
  "job_B = job_J\<lparr>applicationCount := Num (2 ^ 53)\<rparr>"

definition state_B :: state where
  "state_B = \<lparr>applications = [], jobs = [job_B], users = [10, 20, 21, 30], next_id = 100\<rparr>"

text \<open>
  The job of the scenario without a department: a document that the Job schema rejects. The
  job routes validate what they store, so such a document comes from outside them.
\<close>

definition job_X :: job_rec where
  "job_X = job_J\<lparr>department := None\<rparr>"

definition state_X :: state where
  "state_X = \<lparr>applications = [], jobs = [job_X], users = [10, 20, 21, 30], next_id = 100\<rparr>"

section \<open>Saving a loaded document\<close>

text \<open>The entry that the \<^verbatim>\<open>pre('save')\<close> hook pushes.\<close>

abbreviation hook_entry :: "date \<Rightarrow> string \<Rightarrow> timeline_entry" where
  "hook_entry now v \<equiv>
     \<lparr>t_status = v, t_date = now, t_note = ''Status changed to '' @ v, t_updatedBy = None\<rparr>"

text \<open>
  The document \<open>a\<close> after a route has assigned the status \<open>v\<close>, pushed its entry \<open>e\<close> and
  saved: the hook adds its own entry behind \<open>e\<close> when the status differs from the loaded one.
\<close>

abbreviation status_saved :: "application \<Rightarrow> string \<Rightarrow> timeline_entry \<Rightarrow> date \<Rightarrow> application" where
  "status_saved a v e now \<equiv>
     a\<lparr>status := v,
       timeline := timeline a @ e # (if status a \<noteq> v then [hook_entry now v] else []),
       updatedAt := now\<rparr>"

text \<open>The interview sub-document built from a request whose date is \<open>t\<close>.\<close>

abbreviation interview_of :: "interview_request \<Rightarrow> date \<Rightarrow> interview_rec" where
  "interview_of req t \<equiv>
     \<lparr>scheduled = True, i_date = t, i_time = r_time req, i_location = r_location req,
      i_type = r_type req, i_notes = r_notes req\<rparr>"

text \<open>The document \<open>a\<close> after the interview route has saved it.\<close>

abbreviation interview_saved ::
  "application \<Rightarrow> interview_request \<Rightarrow> date \<Rightarrow> timeline_entry \<Rightarrow> date \<Rightarrow> application" where
  "interview_saved a req t e now \<equiv>
     a\<lparr>interview := Some (interview_of req t),
       status := ''interview'',
       timeline := timeline a @ e #
         (if status a \<noteq> ''interview'' then [hook_entry now ''interview''] else []),
       updatedAt := now\<rparr>"

text \<open>The entries that the three routes push themselves.\<close>

abbreviation status_entry :: "date \<Rightarrow> user \<Rightarrow> string \<Rightarrow> string option \<Rightarrow> timeline_entry" where
  "status_entry now caller st note \<equiv>
     \<lparr>t_status = st, t_date = now, t_note = note_or_default note st,
      t_updatedBy = Some (u_id caller)\<rparr>"

abbreviation interview_entry :: "date \<Rightarrow> user \<Rightarrow> interview_request \<Rightarrow> timeline_entry" where
  "interview_entry now caller req \<equiv>
     \<lparr>t_status = ''interview'', t_date = now,
      t_note = ''Interview scheduled for '' @ r_date req @ '' at '' @ r_time req,
      t_updatedBy = Some (u_id caller)\<rparr>"

abbreviation withdraw_entry :: "date \<Rightarrow> timeline_entry" where
  "withdraw_entry now \<equiv>
     \<lparr>t_status = ''withdrawn'', t_date = now, t_note = ''Application withdrawn by student'',
      t_updatedBy = None\<rparr>"

text \<open>
  The entry and the document that the submission route creates, and the deadline test it
  passes: no deadline, or a clock reading that is not after it.
\<close>

abbreviation submitted_entry :: "date \<Rightarrow> timeline_entry" where
  "submitted_entry now \<equiv>
     \<lparr>t_status = ''pending'', t_date = now, t_note = ''Application submitted'', t_updatedBy = None\<rparr>"

abbreviation created :: "date \<Rightarrow> state \<Rightarrow> object_id \<Rightarrow> object_id \<Rightarrow> object_id \<Rightarrow> string option
     \<Rightarrow> (string \<times> string) list \<Rightarrow> application" where
  "created now s jobId uid rid cl ans \<equiv>
     \<lparr>a_id = next_id s, job = jobId, student = uid, recruiter = rid, status = ''pending'',
      coverLetter = cl, resume = None, answers = ans, app_notes = None,
      timeline = [submitted_entry now], interview = None, feedback = None,
      createdAt = now, updatedAt = now\<rparr>"

abbreviation deadline_open :: "job_rec \<Rightarrow> date \<Rightarrow> bool" where
  "deadline_open j now \<equiv> (case applicationDeadline j of None \<Rightarrow> True | Some dl \<Rightarrow> now \<le> dl)"

text \<open>The job with its counter bumped, as \<^verbatim>\<open>incrementApplicationCount\<close> saves it.\<close>

abbreviation counted :: "job_rec \<Rightarrow> job_rec" where
  "counted j \<equiv> j\<lparr>applicationCount := add_one (applicationCount j)\<rparr>"

lemma validStatuses_in_enum: "st \<in> set validStatuses \<Longrightarrow> st \<in> set status_enum"
  by (auto simp: validStatuses_def status_enum_def)

lemma validates_status_doc:
  "v \<in> set status_enum \<Longrightarrow> validates (timeline_push e (set_status v (loaded a)))"
  by (simp add: validates_def timeline_push_def set_status_def loaded_def markModified_def
        isModified_def Let_def)

lemma pre_save_status_doc:
  "data (pre_save now (timeline_push e (set_status v (loaded a)))) =
     a\<lparr>status := v,
       timeline := timeline a @ e # (if status a \<noteq> v then [hook_entry now v] else [])\<rparr>"
  by (simp add: pre_save_def timeline_push_def set_status_def loaded_def markModified_def
        isModified_def Let_def)

lemma isNew_status_doc: "\<not> isNew (timeline_push e (set_status v (loaded a)))"
  by (simp add: timeline_push_def set_status_def loaded_def markModified_def Let_def)

lemma Application_save_status_doc:
  "v \<in> set status_enum \<Longrightarrow>
   Application_save now s (timeline_push e (set_status v (loaded a))) =
     Inr (status_saved a v e now,
          s\<lparr>applications := replace_application (status_saved a v e now) (applications s)\<rparr>)"
  unfolding Application_save_def
  by (simp only: validates_status_doc pre_save_status_doc isNew_status_doc Let_def) simp

subsection \<open>Saving a document with a scheduled interview\<close>

lemma validates_interview_doc:
  "validates (timeline_push e (set_status ''interview''
      (set_interview dt (r_time req) (r_location req) (r_type req) (r_notes req) (loaded a))))
   = (\<exists>t. dt = Some t \<and>
        (interview a = Some (interview_of req t) \<or> r_type req \<in> set interview_type_enum))"
  by (cases dt)
     (auto simp add: validates_def timeline_push_def set_status_def set_interview_def loaded_def
        markModified_def isModified_def Let_def status_enum_def)

lemma pre_save_interview_doc:
  "data (pre_save now (timeline_push e (set_status ''interview''
           (set_interview (Some t) (r_time req) (r_location req) (r_type req) (r_notes req)
              (loaded a))))) =
     a\<lparr>interview := Some (interview_of req t),
       status := ''interview'',
       timeline := timeline a @ e #
          (if status a \<noteq> ''interview'' then [hook_entry now ''interview''] else [])\<rparr>"
  by (simp add: pre_save_def timeline_push_def set_status_def set_interview_def loaded_def
        markModified_def isModified_def Let_def)

lemma isNew_interview_doc:
  "\<not> isNew (timeline_push e (set_status v (set_interview dt tm loc ty nts (loaded a))))"
  by (cases dt)
     (simp_all add: timeline_push_def set_status_def set_interview_def loaded_def
        markModified_def Let_def)

subsection \<open>Adding one to a counter\<close>

text \<open>
  An integer from 1 to \<open>2\<^sup>5\<^sup>3\<close> is a double, so the sum of a non-negative integer below
  \<open>2\<^sup>5\<^sup>3\<close> and 1 is exact. At \<open>2\<^sup>5\<^sup>3\<close> the exact sum lies halfway between two doubles and
  is rounded back.
\<close>

lemma round_half_even_of_int: "round_half_even (of_int k) = k"
  by (simp add: round_half_even_def)

lemma exponent_of_int:
  assumes "0 < m"
  shows "exponent (of_int m) = bitlen m - 1"
proof -
  have q: "quotient_of \<bar>of_int m :: rat\<bar> = (m, 1)"
    using assms by (simp add: quotient_of_int flip: of_int_abs)
  have b1: "bitlen 1 = 1" by (simp add: bitlen_alt_def)
  from assms have "1 \<le> bitlen m" by (auto simp: bitlen_alt_def)
  then have nn: "0 \<le> bitlen m - 1" by simp
  from bitlen_bounds [OF assms] have "2 ^ nat (bitlen m - 1) \<le> m" by simp
  then have "(of_int (2 ^ nat (bitlen m - 1)) :: rat) \<le> of_int m" by (simp only: of_int_le_iff)
  then have "(2 :: rat) powi (bitlen m - 1) \<le> of_int m"
    using nn by (simp add: power_int_def)
  then show ?thesis
    using assms by (simp add: exponent_def q b1 Let_def)
qed

lemma to_double_of_int:
  assumes "0 < m" and "m \<le> 2 ^ 53"
  shows "to_double (of_int m) = Num (of_int m)"
proof -
  define d where "d = bitlen m - 1"
  from assms(1) have "1 \<le> bitlen m" by (auto simp: bitlen_alt_def)
  then have d0: "0 \<le> d" by (simp add: d_def)
  from bitlen_bounds [OF assms(1)] have lo: "2 ^ nat d \<le> m" by (simp add: d_def)
  have d53: "d \<le> 53"
  proof (rule ccontr)
    assume "\<not> d \<le> 53"
    then have "54 \<le> nat d" by simp
    then have "(2::int) ^ 54 \<le> 2 ^ nat d" by (intro power_increasing) simp_all
    with lo assms(2) show False by simp
  qed
  have e: "max (exponent (of_int m)) (- 1022) = d"
    using d0 by (simp add: exponent_of_int [OF assms(1)] d_def)
  have r: "of_int (round_half_even (\<bar>of_int m\<bar> / 2 powi (d - 52))) * 2 powi (d - 52) = (of_int m :: rat)"
  proof (cases "d = 53")
    case True
    with lo assms(2) have m: "m = 2 ^ 53" by simp
    have "\<bar>of_int m :: rat\<bar> / 2 powi (d - 52) = of_int (2 ^ 52)"
      by (simp add: True m)
    then show ?thesis
      by (simp only: round_half_even_of_int) (simp add: True m)
  next
    case False
    with d53 have le: "d \<le> 52" by simp
    then have u: "(2 :: rat) powi (d - 52) = 1 / 2 ^ nat (52 - d)"
      by (cases "d = 52") (simp_all add: power_int_def field_simps)
    have "\<bar>of_int m :: rat\<bar> / 2 powi (d - 52) = of_int (m * 2 ^ nat (52 - d))"
      using assms(1) by (simp add: u)
    then show ?thesis
      by (simp only: round_half_even_of_int) (simp add: u)
  qed
  have big: "\<not> (2 :: rat) powi 1024 \<le> of_int m"
  proof -
    have "(of_int m :: rat) \<le> of_int (2 ^ 53)" using assms(2) by (simp only: of_int_le_iff)
    also have "\<dots> < 2 powi 1024" by (simp add: power_int_def)
    finally show ?thesis by simp
  qed
  have nz: "(of_int m :: rat) \<noteq> 0" and pos: "sgn (of_int m :: rat) = 1"
    using assms(1) by simp_all
  show ?thesis
    unfolding to_double_def Let_def e r
    using nz pos big by simp
qed

lemma add_one_small:
  assumes "0 \<le> n" and "n < 2 ^ 53"
  shows "add_one (Num (of_int n)) = Num (of_int n + 1)"
proof -
  from assms have "0 < n + 1" "n + 1 \<le> 2 ^ 53" by simp_all
  then have "to_double (of_int (n + 1)) = Num (of_int (n + 1))" by (rule to_double_of_int)
  then show ?thesis by (simp add: add_one_def)
qed

lemma add_one_0: "add_one (Num 0) = Num 1"
  using add_one_small [of 0] by simp

lemma add_one_2_53: "add_one (Num (2 ^ 53)) = Num (2 ^ 53)"
  by code_simp

subsection \<open>Lookups after a write\<close>

lemma find_replace_application:
  "find (\<lambda>b. a_id b = i) bs = Some a \<Longrightarrow> a_id a' = i \<Longrightarrow>
   find (\<lambda>b. a_id b = i) (replace_application a' bs) = Some a'"
  by (induction bs) (auto split: if_splits)

lemma find_a_id: "find (\<lambda>b. a_id b = i) bs = Some a \<Longrightarrow> a_id a = i"
  by (induction bs) (auto split: if_splits)

lemma map_replace_application:
  "find (\<lambda>b. a_id b = a_id a') bs = Some a \<Longrightarrow> f a' = f a \<Longrightarrow>
   map f (replace_application a' bs) = map f bs"
  by (induction bs) (auto split: if_splits)

lemma find_replace_job:
  "find (\<lambda>k. j_id k = i) ks = Some j \<Longrightarrow> j_id j' = i \<Longrightarrow>
   find (\<lambda>k. j_id k = i) (replace_job j' ks) = Some j'"
  by (induction ks) (auto split: if_splits)

lemma find_j_id: "find (\<lambda>k. j_id k = i) ks = Some j \<Longrightarrow> j_id j = i"
  by (induction ks) (auto split: if_splits)

lemma Application_findById_replace:
  "Application_findById s i = Some a \<Longrightarrow> a_id a' = a_id a \<Longrightarrow>
   Application_findById (s\<lparr>applications := replace_application a' (applications s)\<rparr>) i = Some a'"
  unfolding Application_findById_def
  using find_a_id [of i "applications s" a] find_replace_application [of i "applications s" a a']
  by simp

section \<open>What a successful request leaves\<close>

text \<open>
  For each of the three routes that change an application: the guards that a successful
  call has passed, the document it answers with and the state it leaves.
\<close>

lemma updateStatus_success:
  assumes "Application_findById s i = Some a"
  shows "updateStatus now s caller i st note = (Inr a', s') \<longleftrightarrow>
     (u_role caller = Recruiter \<or> u_role caller = Admin)
     \<and> st \<in> set validStatuses
     \<and> (u_role caller = Admin \<or> recruiter a = u_id caller)
     \<and> a' = status_saved a st (status_entry now caller st note) now
     \<and> s' = s\<lparr>applications := replace_application a' (applications s)\<rparr>"
proof (cases "authorize [Recruiter, Admin] caller \<and> st \<in> set validStatuses
              \<and> \<not> (u_role caller = Recruiter \<and> recruiter a \<noteq> u_id caller)")
  case True
  then have en: "st \<in> set status_enum" by (simp add: validStatuses_in_enum)
  from True assms show ?thesis
    unfolding updateStatus_def
    by (auto simp: Let_def Application_save_status_doc [OF en] authorize_def)
next
  case False
  with assms have "fst (updateStatus now s caller i st note) \<in> {Inl Forbidden, Inl InvalidStatus}"
    unfolding updateStatus_def by (auto simp: Let_def)
  moreover from False have "\<not> ((u_role caller = Recruiter \<or> u_role caller = Admin)
     \<and> st \<in> set validStatuses \<and> (u_role caller = Admin \<or> recruiter a = u_id caller))"
    by (auto simp: authorize_def)
  ultimately show ?thesis by auto
qed

lemma withdraw_success:
  assumes "Application_findById s i = Some a"
  shows "withdraw now s caller i = (Inr u, s') \<longleftrightarrow>
     u_role caller = Student \<and> student a = u_id caller
     \<and> status a \<noteq> ''approved'' \<and> status a \<noteq> ''rejected''
     \<and> s' = s\<lparr>applications :=
                 replace_application (status_saved a ''withdrawn'' (withdraw_entry now) now)
                   (applications s)\<rparr>"
proof (cases "authorize [Student] caller \<and> student a = u_id caller
              \<and> status a \<notin> set [''approved'', ''rejected'']")
  case True
  have en: "''withdrawn'' \<in> set status_enum" by (simp add: status_enum_def)
  from True assms show ?thesis
    unfolding withdraw_def
    by (auto simp: Let_def Application_save_status_doc [OF en] authorize_def)
next
  case False
  with assms have "fst (withdraw now s caller i) \<in> {Inl Forbidden, Inl InvalidState}"
    unfolding withdraw_def by (auto simp: Let_def)
  moreover from False have "\<not> (u_role caller = Student \<and> student a = u_id caller
     \<and> status a \<noteq> ''approved'' \<and> status a \<noteq> ''rejected'')"
    by (auto simp: authorize_def)
  ultimately show ?thesis by auto
qed

lemma scheduleInterview_success:
  assumes "Application_findById s i = Some a"
  shows "scheduleInterview newDate now s caller i req = (Inr a', s') \<longleftrightarrow>
     (u_role caller = Recruiter \<or> u_role caller = Admin)
     \<and> (u_role caller = Admin \<or> recruiter a = u_id caller)
     \<and> (\<exists>t. newDate (r_date req) = Some t
            \<and> (interview a = Some (interview_of req t) \<or> r_type req \<in> set interview_type_enum)
            \<and> a' = interview_saved a req t (interview_entry now caller req) now)
     \<and> s' = s\<lparr>applications := replace_application a' (applications s)\<rparr>"
proof (cases "authorize [Recruiter, Admin] caller
              \<and> \<not> (u_role caller = Recruiter \<and> recruiter a \<noteq> u_id caller)")
  case True
  show ?thesis
  proof (cases "newDate (r_date req)")
    case None
    with True assms show ?thesis
      unfolding scheduleInterview_def Application_save_def
      by (simp add: Let_def validates_interview_doc)
  next
    case (Some t)
    with True assms show ?thesis
      unfolding scheduleInterview_def Application_save_def
      by (auto simp: Let_def validates_interview_doc pre_save_interview_doc
            isNew_interview_doc authorize_def)
  qed
next
  case False
  with assms have "fst (scheduleInterview newDate now s caller i req) = Inl Forbidden"
    unfolding scheduleInterview_def by (auto simp: Let_def)
  moreover from False have "\<not> ((u_role caller = Recruiter \<or> u_role caller = Admin)
     \<and> (u_role caller = Admin \<or> recruiter a = u_id caller))"
    by (auto simp: authorize_def)
  ultimately show ?thesis by auto
qed

section \<open>Interview scheduling\<close>

lemma find_app_1: "Application_findById state_1 100 = Some app_1"
  by (simp add: Application_findById_def state_1_def app_1_def)

text \<open>
  C9. After a successful \<open>scheduleInterview\<close> on the application \<open>a\<close>, the answer \<open>a'\<close> is
  what is stored under the id; its interview sub-record has \<open>scheduled = True\<close> and holds the
  date constructed from the supplied text and the supplied time, location, type and notes;
  its status is \<open>interview\<close> whatever it was before; and behind the old timeline stands the
  entry "Interview scheduled for (date) at (time)" by the caller, followed by the entry of the
  save hook when the status was not \<open>interview\<close> before.
\<close>

theorem scheduleInterview_effect:
  assumes "Application_findById s i = Some a"
    and "scheduleInterview newDate now s caller i req = (Inr a', s')"
  shows "(\<exists>t. newDate (r_date req) = Some t \<and> interview a' = Some (interview_of req t))
         \<and> status a' = ''interview''
         \<and> timeline a' = timeline a @ interview_entry now caller req #
              (if status a \<noteq> ''interview'' then [hook_entry now ''interview''] else [])
         \<and> Application_findById s' i = Some a'"
proof -
  from assms obtain t where t: "newDate (r_date req) = Some t"
    and a': "a' = interview_saved a req t (interview_entry now caller req) now"
    and s': "s' = s\<lparr>applications := replace_application a' (applications s)\<rparr>"
    unfolding scheduleInterview_success [OF assms(1)] by blast
  have "a_id a' = a_id a" by (simp add: a')
  with assms(1) have "Application_findById s' i = Some a'"
    unfolding s' by (rule Application_findById_replace)
  moreover have "status a' = ''interview''" by (simp add: a')
  moreover have "interview a' = Some (interview_of req t)" by (simp add: a')
  moreover have "timeline a' = timeline a @ interview_entry now caller req #
              (if status a \<noteq> ''interview'' then [hook_entry now ''interview''] else [])"
    by (simp add: a')
  ultimately show ?thesis using t by simp
qed

theorem scheduleInterview_effect_witness:
  "Application_findById state_1 100 = Some app_1
   \<and> (\<exists>a' s'. scheduleInterview date_of 6 state_1 recruiter_R 100 request_I = (Inr a', s')
        \<and> interview a' = Some \<lparr>scheduled = True, i_date = 1706140800000, i_time = ''2:00 PM'',
                                 i_location = ''Video call'', i_type = ''video'', i_notes = None\<rparr>
        \<and> status a' = ''interview''
        \<and> timeline a' = timeline app_1 @
             [\<lparr>t_status = ''interview'', t_date = 6,
               t_note = ''Interview scheduled for 2024-01-25 at 2:00 PM'',
               t_updatedBy = Some 20\<rparr>,
              \<lparr>t_status = ''interview'', t_date = 6, t_note = ''Status changed to interview'',
               t_updatedBy = None\<rparr>]
        \<and> Application_findById s' 100 = Some a')"
proof -
  obtain a' s' where r: "scheduleInterview date_of 6 state_1 recruiter_R 100 request_I = (Inr a', s')"
    unfolding scheduleInterview_success [OF find_app_1]
    by (simp add: recruiter_R_def app_1_def date_of_def request_I_def interview_type_enum_def)
  from scheduleInterview_effect [OF find_app_1 r] r find_app_1
  show ?thesis
    by (auto simp: date_of_def request_I_def recruiter_R_def app_1_def)
qed

section \<open>Frame of the status-changing routes\<close>

text \<open>
  C10. A successful \<open>updateStatus\<close>, \<open>scheduleInterview\<close> or \<open>withdraw\<close> on the
  application \<open>a\<close> leaves under its id a document whose cover letter, resume, answers,
  notes, feedback and job, student and recruiter references are those of \<open>a\<close>; the status
  and withdraw routes leave the interview sub-record as it was too. (The \<^verbatim>\<open>updatedAt\<close>
  stamp of the schema's \<^verbatim>\<open>timestamps\<close> option is refreshed by every save.)
\<close>

theorem status_routes_frame:
  assumes "Application_findById s i = Some a"
  shows "(updateStatus now s caller i st nt = (Inr a', s') \<longrightarrow>
            Application_findById s' i = Some a' \<and> interview a' = interview a
            \<and> coverLetter a' = coverLetter a \<and> resume a' = resume a \<and> answers a' = answers a
            \<and> app_notes a' = app_notes a \<and> feedback a' = feedback a
            \<and> job a' = job a \<and> student a' = student a \<and> recruiter a' = recruiter a)
       \<and> (scheduleInterview newDate now s caller i req = (Inr b', t') \<longrightarrow>
            Application_findById t' i = Some b'
            \<and> coverLetter b' = coverLetter a \<and> resume b' = resume a \<and> answers b' = answers a
            \<and> app_notes b' = app_notes a \<and> feedback b' = feedback a
            \<and> job b' = job a \<and> student b' = student a \<and> recruiter b' = recruiter a)
       \<and> (withdraw now s caller i = (Inr u, w') \<longrightarrow>
            (\<exists>c'. Application_findById w' i = Some c' \<and> interview c' = interview a
            \<and> coverLetter c' = coverLetter a \<and> resume c' = resume a \<and> answers c' = answers a
            \<and> app_notes c' = app_notes a \<and> feedback c' = feedback a
            \<and> job c' = job a \<and> student c' = student a \<and> recruiter c' = recruiter a))"
proof -
  have U: "Application_findById s' i = Some a' \<and> interview a' = interview a
            \<and> coverLetter a' = coverLetter a \<and> resume a' = resume a \<and> answers a' = answers a
            \<and> app_notes a' = app_notes a \<and> feedback a' = feedback a
            \<and> job a' = job a \<and> student a' = student a \<and> recruiter a' = recruiter a"
    if r: "updateStatus now s caller i st nt = (Inr a', s')"
  proof -
  from r have a': "a' = status_saved a st (status_entry now caller st nt) now"
    and s': "s' = s\<lparr>applications := replace_application a' (applications s)\<rparr>"
    unfolding updateStatus_success [OF assms] by simp_all
  have "a_id a' = a_id a" by (simp add: a')
  with assms have f: "Application_findById s' i = Some a'"
    unfolding s' by (rule Application_findById_replace)
  show ?thesis
    using f by (simp add: a')
  qed
  have I: "Application_findById t' i = Some b'
            \<and> coverLetter b' = coverLetter a \<and> resume b' = resume a \<and> answers b' = answers a
            \<and> app_notes b' = app_notes a \<and> feedback b' = feedback a
            \<and> job b' = job a \<and> student b' = student a \<and> recruiter b' = recruiter a"
    if r: "scheduleInterview newDate now s caller i req = (Inr b', t')"
  proof -
  from r obtain t where b': "b' = interview_saved a req t (interview_entry now caller req) now"
    and t': "t' = s\<lparr>applications := replace_application b' (applications s)\<rparr>"
    unfolding scheduleInterview_success [OF assms] by blast
  have "a_id b' = a_id a" by (simp add: b')
  with assms have f: "Application_findById t' i = Some b'"
    unfolding t' by (rule Application_findById_replace)
  show ?thesis
    using f by (simp add: b')
  qed
  have W: "\<exists>c'. Application_findById w' i = Some c' \<and> interview c' = interview a
            \<and> coverLetter c' = coverLetter a \<and> resume c' = resume a \<and> answers c' = answers a
            \<and> app_notes c' = app_notes a \<and> feedback c' = feedback a
            \<and> job c' = job a \<and> student c' = student a \<and> recruiter c' = recruiter a"
    if r: "withdraw now s caller i = (Inr u, w')"
  proof -
  define c' where "c' = status_saved a ''withdrawn'' (withdraw_entry now) now"
  from r have w': "w' = s\<lparr>applications := replace_application c' (applications s)\<rparr>"
    unfolding withdraw_success [OF assms] c'_def by simp
  have "a_id c' = a_id a" by (simp add: c'_def)
  with assms have f: "Application_findById w' i = Some c'"
    unfolding w' by (rule Application_findById_replace)
  have "Application_findById w' i = Some c' \<and> interview c' = interview a
            \<and> coverLetter c' = coverLetter a \<and> resume c' = resume a \<and> answers c' = answers a
            \<and> app_notes c' = app_notes a \<and> feedback c' = feedback a
            \<and> job c' = job a \<and> student c' = student a \<and> recruiter c' = recruiter a"
    using f by (simp add: c'_def)
  then show ?thesis by blast
  qed
  from U I W show ?thesis by blast
qed

theorem status_routes_frame_witness:
  "Application_findById state_1 100 = Some app_1
   \<and> (\<exists>a' s'. updateStatus 6 state_1 recruiter_R 100 ''interview'' (Some ''Let's talk'') = (Inr a', s')
        \<and> Application_findById s' 100 = Some a' \<and> interview a' = None
        \<and> coverLetter a' = None \<and> resume a' = None \<and> answers a' = []
        \<and> app_notes a' = None \<and> feedback a' = None
        \<and> job a' = 1 \<and> student a' = 10 \<and> recruiter a' = 20)
   \<and> (\<exists>b' t'. scheduleInterview date_of 6 state_1 recruiter_R 100 request_I = (Inr b', t')
        \<and> Application_findById t' 100 = Some b'
        \<and> coverLetter b' = None \<and> resume b' = None \<and> answers b' = []
        \<and> app_notes b' = None \<and> feedback b' = None
        \<and> job b' = 1 \<and> student b' = 10 \<and> recruiter b' = 20)
   \<and> (\<exists>w' c'. withdraw 7 state_1 student_S 100 = (Inr (), w')
        \<and> Application_findById w' 100 = Some c' \<and> interview c' = None
        \<and> coverLetter c' = None \<and> resume c' = None \<and> answers c' = []
        \<and> app_notes c' = None \<and> feedback c' = None
        \<and> job c' = 1 \<and> student c' = 10 \<and> recruiter c' = 20)"
proof -
  obtain a' s' where r1:
    "updateStatus 6 state_1 recruiter_R 100 ''interview'' (Some ''Let's talk'') = (Inr a', s')"
    unfolding updateStatus_success [OF find_app_1]
    by (simp add: recruiter_R_def app_1_def validStatuses_def)
  obtain b' t' where r2:
    "scheduleInterview date_of 6 state_1 recruiter_R 100 request_I = (Inr b', t')"
    unfolding scheduleInterview_success [OF find_app_1]
    by (simp add: recruiter_R_def app_1_def date_of_def request_I_def interview_type_enum_def)
  obtain w' where r3: "withdraw 7 state_1 student_S 100 = (Inr (), w')"
    unfolding withdraw_success [OF find_app_1]
    by (simp add: student_S_def app_1_def)
  note fr = status_routes_frame [OF find_app_1, where now = 6 and caller = recruiter_R
      and st = "''interview''" and nt = "Some ''Let's talk''" and a' = a' and s' = s'
      and newDate = date_of and req = request_I and b' = b' and t' = t']
  note fw = status_routes_frame [OF find_app_1, where now = 7 and caller = student_S
      and u = "()" and w' = w']
  from fr r1 have 1: "Application_findById s' 100 = Some a' \<and> interview a' = None
        \<and> coverLetter a' = None \<and> resume a' = None \<and> answers a' = []
        \<and> app_notes a' = None \<and> feedback a' = None
        \<and> job a' = 1 \<and> student a' = 10 \<and> recruiter a' = 20"
    by (simp add: app_1_def)
  from fr r2 have 2: "Application_findById t' 100 = Some b'
        \<and> coverLetter b' = None \<and> resume b' = None \<and> answers b' = []
        \<and> app_notes b' = None \<and> feedback b' = None
        \<and> job b' = 1 \<and> student b' = 10 \<and> recruiter b' = 20"
    by (simp add: app_1_def)
  from fw r3 have 3: "\<exists>c'. Application_findById w' 100 = Some c' \<and> interview c' = None
        \<and> coverLetter c' = None \<and> resume c' = None \<and> answers c' = []
        \<and> app_notes c' = None \<and> feedback c' = None
        \<and> job c' = 1 \<and> student c' = 10 \<and> recruiter c' = 20"
    by (simp add: app_1_def)
  from find_app_1 r1 1 r2 2 r3 3 show ?thesis by blast
qed

section \<open>Withdrawal\<close>

lemma find_app_approved:
  "Application_findById state_approved 100 = Some (app_1\<lparr>status := ''approved''\<rparr>)"
  by (simp add: Application_findById_def state_approved_def app_1_def)

text \<open>
  C7. On an existing application, \<open>withdraw\<close> answers \<open>InvalidState\<close> exactly when the
  caller is the owning student and the status is \<open>approved\<close> or \<open>rejected\<close>; the owning
  student succeeds at every other status and the stored status becomes \<open>withdrawn\<close>; and
  every caller whose id is not the application's student, an administrator included,
  receives \<open>Forbidden\<close> and the state is left as it was.
\<close>

theorem withdraw_outcomes:
  assumes "Application_findById s i = Some a"
  shows "(fst (withdraw now s caller i) = Inl InvalidState \<longleftrightarrow>
            u_role caller = Student \<and> student a = u_id caller
            \<and> (status a = ''approved'' \<or> status a = ''rejected''))
       \<and> (u_role caller = Student \<and> student a = u_id caller
            \<and> status a \<noteq> ''approved'' \<and> status a \<noteq> ''rejected'' \<longrightarrow>
            (\<exists>s' a'. withdraw now s caller i = (Inr (), s')
                     \<and> Application_findById s' i = Some a' \<and> status a' = ''withdrawn''))
       \<and> (u_id caller \<noteq> student a \<longrightarrow> withdraw now s caller i = (Inl Forbidden, s))"
proof (intro conjI impI)
  show "fst (withdraw now s caller i) = Inl InvalidState \<longleftrightarrow>
            u_role caller = Student \<and> student a = u_id caller
            \<and> (status a = ''approved'' \<or> status a = ''rejected'')"
  proof (cases "u_role caller = Student \<and> student a = u_id caller
                \<and> status a \<noteq> ''approved'' \<and> status a \<noteq> ''rejected''")
    case True
    then have "withdraw now s caller i = (Inr (),
        s\<lparr>applications := replace_application
             (status_saved a ''withdrawn'' (withdraw_entry now) now) (applications s)\<rparr>)"
      unfolding withdraw_success [OF assms] by simp
    with True show ?thesis by simp
  next
    case False
    with assms show ?thesis
      unfolding withdraw_def by (auto simp: authorize_def)
  qed
next
  assume h: "u_role caller = Student \<and> student a = u_id caller
            \<and> status a \<noteq> ''approved'' \<and> status a \<noteq> ''rejected''"
  define a' where "a' = status_saved a ''withdrawn'' (withdraw_entry now) now"
  define s' where "s' = s\<lparr>applications := replace_application a' (applications s)\<rparr>"
  from h have r: "withdraw now s caller i = (Inr (), s')"
    unfolding withdraw_success [OF assms] s'_def a'_def by simp
  have "a_id a' = a_id a" by (simp add: a'_def)
  with assms have "Application_findById s' i = Some a'"
    unfolding s'_def by (rule Application_findById_replace)
  moreover have "status a' = ''withdrawn''" by (simp add: a'_def)
  ultimately show "\<exists>s' a'. withdraw now s caller i = (Inr (), s')
                     \<and> Application_findById s' i = Some a' \<and> status a' = ''withdrawn''"
    using r by blast
next
  assume "u_id caller \<noteq> student a"
  with assms show "withdraw now s caller i = (Inl Forbidden, s)"
    unfolding withdraw_def by auto
qed

theorem withdraw_outcomes_witness:
  "Application_findById state_1 100 = Some app_1
   \<and> (\<exists>s' a'. withdraw 7 state_1 student_S 100 = (Inr (), s')
          \<and> Application_findById s' 100 = Some a' \<and> status a' = ''withdrawn'')
   \<and> withdraw 7 state_1 admin_A 100 = (Inl Forbidden, state_1)
   \<and> withdraw 7 state_1 recruiter_R 100 = (Inl Forbidden, state_1)
   \<and> fst (withdraw 7 state_approved student_S 100) = Inl InvalidState"
proof -
  from withdraw_outcomes [OF find_app_1, of 7 student_S]
  have 1: "\<exists>s' a'. withdraw 7 state_1 student_S 100 = (Inr (), s')
          \<and> Application_findById s' 100 = Some a' \<and> status a' = ''withdrawn''"
    by (simp add: student_S_def app_1_def)
  from withdraw_outcomes [OF find_app_1, of 7 admin_A]
  have 2: "withdraw 7 state_1 admin_A 100 = (Inl Forbidden, state_1)"
    by (simp add: admin_A_def app_1_def)
  from withdraw_outcomes [OF find_app_1, of 7 recruiter_R]
  have 3: "withdraw 7 state_1 recruiter_R 100 = (Inl Forbidden, state_1)"
    by (simp add: recruiter_R_def app_1_def)
  from withdraw_outcomes [OF find_app_approved, of 7 student_S]
  have 4: "fst (withdraw 7 state_approved student_S 100) = Inl InvalidState"
    by (simp add: student_S_def app_1_def)
  from find_app_1 1 2 3 4 show ?thesis by blast
qed

section \<open>Accepted statuses\<close>

lemma role_cases: "u_role c = Student \<or> u_role c = Recruiter \<or> u_role c = Admin"
  by (cases "u_role c") simp_all

text \<open>The application of the scenario is what the submission route creates.\<close>

lemma submit_scenario: "submitApplication 5 state_0 student_S (Id 1) None [] = (Inr app_1, state_1)"
  by (simp add: submitApplication_def authorize_def validateApplication_def Job_findById_def
        Application_findOne_def Application_create_def Application_save_def validates_def
        pre_save_def isModified_def incrementApplicationCount_def status_enum_def Let_def
        populate_recruiter_def Job_save_def Job_validates_def required_string_def
        jobType_enum_def add_one_0
        state_0_def state_1_def student_S_def job_J_def app_1_def)

text \<open>
  C4, as stated in the specification, fails: \<open>withdrawn\<close> is one of the six statuses of the
  schema, and the status route refuses it with \<open>InvalidStatus\<close> even for an administrator.
\<close>

theorem updateStatus_withdrawn_counterexample:
  "''withdrawn'' \<in> set status_enum
   \<and> updateStatus 6 state_1 admin_A 100 ''withdrawn'' None = (Inl InvalidStatus, state_1)"
  by (simp add: updateStatus_def authorize_def validStatuses_def admin_A_def status_enum_def)

text \<open>
  C4, amended. The status route accepts five statuses: \<open>pending\<close>, \<open>under_review\<close>,
  \<open>interview\<close>, \<open>approved\<close> and \<open>rejected\<close>. Whether or not the application exists, it
  answers \<open>InvalidStatus\<close> exactly when the caller is a recruiter or an administrator and
  the new status is not one of the five; and for each of the five, whatever the current
  status of an existing application, the call of its recruiter or of an administrator
  succeeds and stores the new status.
\<close>

theorem updateStatus_accepted_statuses:
  "(fst (updateStatus now s caller i st nt) = Inl InvalidStatus \<longleftrightarrow>
      (u_role caller = Recruiter \<or> u_role caller = Admin)
      \<and> st \<notin> {''pending'', ''under_review'', ''interview'', ''approved'', ''rejected''})
   \<and> (Application_findById s i = Some a
        \<and> st \<in> {''pending'', ''under_review'', ''interview'', ''approved'', ''rejected''}
        \<and> (u_role caller = Admin \<or> u_role caller = Recruiter \<and> recruiter a = u_id caller) \<longrightarrow>
        (\<exists>a' s'. updateStatus now s caller i st nt = (Inr a', s') \<and> status a' = st
                 \<and> Application_findById s' i = Some a'))"
proof -
  have vs: "set validStatuses = {''pending'', ''under_review'', ''interview'', ''approved'', ''rejected''}"
    by (simp add: validStatuses_def)
  have 1: "fst (updateStatus now s caller i st nt) = Inl InvalidStatus \<longleftrightarrow>
            (u_role caller = Recruiter \<or> u_role caller = Admin) \<and> st \<notin> set validStatuses"
  proof (cases "(u_role caller = Recruiter \<or> u_role caller = Admin) \<and> st \<notin> set validStatuses")
    case True
    then show ?thesis
      unfolding updateStatus_def by (auto simp: authorize_def)
  next
    case False
    have "fst (updateStatus now s caller i st nt) \<noteq> Inl InvalidStatus"
    proof (cases "Application_findById s i")
      case None
      with False show ?thesis
        unfolding updateStatus_def using role_cases [of caller] by (auto simp: authorize_def)
    next
      case (Some b)
      show ?thesis
      proof (cases "(u_role caller = Recruiter \<or> u_role caller = Admin)
                    \<and> (u_role caller = Admin \<or> recruiter b = u_id caller)")
        case True
        with False have v: "st \<in> set validStatuses" by auto
        define b' where "b' = status_saved b st (status_entry now caller st nt) now"
        from True v have "updateStatus now s caller i st nt =
            (Inr b', s\<lparr>applications := replace_application b' (applications s)\<rparr>)"
          unfolding updateStatus_success [OF Some] b'_def by simp
        then show ?thesis by simp
      next
        case nonowner: False
        with Some False show ?thesis
          unfolding updateStatus_def using role_cases [of caller] by (auto simp: authorize_def)
      qed
    qed
    with False show ?thesis by simp
  qed
  have 2: "\<exists>a' s'. updateStatus now s caller i st nt = (Inr a', s') \<and> status a' = st
                     \<and> Application_findById s' i = Some a'"
    if f: "Application_findById s i = Some a" and h: "st \<in> set validStatuses"
          "u_role caller = Admin \<or> u_role caller = Recruiter \<and> recruiter a = u_id caller"
  proof -
    define a' where "a' = status_saved a st (status_entry now caller st nt) now"
    define s' where "s' = s\<lparr>applications := replace_application a' (applications s)\<rparr>"
    from h have r: "updateStatus now s caller i st nt = (Inr a', s')"
      unfolding updateStatus_success [OF f] a'_def s'_def by auto
    have "a_id a' = a_id a" by (simp add: a'_def)
    with f have "Application_findById s' i = Some a'"
      unfolding s'_def by (rule Application_findById_replace)
    moreover have "status a' = st" by (simp add: a'_def)
    ultimately show ?thesis using r by blast
  qed
  show ?thesis
    unfolding vs [symmetric]
  proof (intro conjI impI)
    show "fst (updateStatus now s caller i st nt) = Inl InvalidStatus \<longleftrightarrow>
            (u_role caller = Recruiter \<or> u_role caller = Admin) \<and> st \<notin> set validStatuses"
      by (rule 1)
  next
    assume "Application_findById s i = Some a \<and> st \<in> set validStatuses
            \<and> (u_role caller = Admin \<or> u_role caller = Recruiter \<and> recruiter a = u_id caller)"
    then have "Application_findById s i = Some a" and "st \<in> set validStatuses"
      and "u_role caller = Admin \<or> u_role caller = Recruiter \<and> recruiter a = u_id caller"
      by simp_all
    then show "\<exists>a' s'. updateStatus now s caller i st nt = (Inr a', s') \<and> status a' = st
                     \<and> Application_findById s' i = Some a'"
      by (rule 2)
  qed
qed

theorem updateStatus_accepted_statuses_witness:
  "Application_findById state_approved 100 = Some (app_1\<lparr>status := ''approved''\<rparr>)
   \<and> (\<exists>a' s'. updateStatus 6 state_approved recruiter_R 100 ''pending'' None = (Inr a', s')
         \<and> status a' = ''pending'' \<and> Application_findById s' 100 = Some a')
   \<and> fst (updateStatus 6 state_approved recruiter_R 100 ''hired'' None) = Inl InvalidStatus
   \<and> fst (updateStatus 6 state_approved recruiter_R 100 ''rejected'' None) \<noteq> Inl InvalidStatus
   \<and> Application_findById state_0 100 = None
   \<and> fst (updateStatus 6 state_0 admin_A 100 ''withdrawn'' None) = Inl InvalidStatus
   \<and> fst (updateStatus 6 state_0 admin_A 100 ''approved'' None) \<noteq> Inl InvalidStatus"
proof -
  note t = updateStatus_accepted_statuses [where now = 6 and s = state_approved
      and caller = recruiter_R and i = 100 and nt = None and a = "app_1\<lparr>status := ''approved''\<rparr>"]
  from t [where st = "''pending''"] find_app_approved
  have 1: "\<exists>a' s'. updateStatus 6 state_approved recruiter_R 100 ''pending'' None = (Inr a', s')
         \<and> status a' = ''pending'' \<and> Application_findById s' 100 = Some a'"
    by (simp add: recruiter_R_def app_1_def)
  from t [where st = "''hired''"]
  have 2: "fst (updateStatus 6 state_approved recruiter_R 100 ''hired'' None) = Inl InvalidStatus"
    by (simp add: recruiter_R_def)
  from t [where st = "''rejected''"]
  have 3: "fst (updateStatus 6 state_approved recruiter_R 100 ''rejected'' None) \<noteq> Inl InvalidStatus"
    by (simp add: recruiter_R_def)
  have 0: "Application_findById state_0 100 = None"
    by (simp add: Application_findById_def state_0_def)
  note u = updateStatus_accepted_statuses [where now = 6 and s = state_0
      and caller = admin_A and i = 100 and nt = None]
  from u [where st = "''withdrawn''"]
  have 4: "fst (updateStatus 6 state_0 admin_A 100 ''withdrawn'' None) = Inl InvalidStatus"
    by (simp add: admin_A_def)
  from u [where st = "''approved''"]
  have 5: "fst (updateStatus 6 state_0 admin_A 100 ''approved'' None) \<noteq> Inl InvalidStatus"
    by (simp add: admin_A_def)
  from find_app_approved 1 2 3 0 4 5 show ?thesis by blast
qed

section \<open>Access control\<close>

text \<open>
  C8, as stated in the specification, fails: a recruiter who does not own the application and
  asks for a status that the route does not accept receives \<open>InvalidStatus\<close>, not
  \<open>Forbidden\<close>, because the route checks the status before it loads the application.
\<close>

theorem non_owner_recruiter_counterexample:
  "u_role recruiter_Q = Recruiter \<and> u_id recruiter_Q \<noteq> recruiter app_1
   \<and> Application_findById state_1 100 = Some app_1
   \<and> fst (updateStatus 6 state_1 recruiter_Q 100 ''withdrawn'' None) = Inl InvalidStatus
   \<and> fst (updateStatus 6 state_1 recruiter_Q 100 ''withdrawn'' None) \<noteq> Inl Forbidden"
  using find_app_1
  by (simp add: updateStatus_def authorize_def validStatuses_def recruiter_Q_def app_1_def)

text \<open>
  C8, amended. On an existing application, a caller who is not its student, not its recruiter
  and not an administrator receives \<open>Forbidden\<close> from \<open>getApplication\<close>. A recruiter who
  is not the application's recruiter receives \<open>Forbidden\<close> from \<open>scheduleInterview\<close>, and
  from \<open>updateStatus\<close> when the new status is one the route accepts; otherwise
  \<open>updateStatus\<close> answers \<open>InvalidStatus\<close>. In each case the state is left as it was.
\<close>

theorem non_owner_forbidden:
  assumes "Application_findById s i = Some a"
  shows "(u_id caller \<noteq> student a \<and> u_id caller \<noteq> recruiter a \<and> u_role caller \<noteq> Admin \<longrightarrow>
            getApplication s caller i = Inl Forbidden)
       \<and> (u_role caller = Recruiter \<and> u_id caller \<noteq> recruiter a \<longrightarrow>
            scheduleInterview newDate now s caller i req = (Inl Forbidden, s)
            \<and> (st \<in> set validStatuses \<longrightarrow> updateStatus now s caller i st nt = (Inl Forbidden, s))
            \<and> (st \<notin> set validStatuses \<longrightarrow> updateStatus now s caller i st nt = (Inl InvalidStatus, s)))"
  using assms
  by (auto simp: getApplication_def scheduleInterview_def updateStatus_def authorize_def)

theorem non_owner_forbidden_witness:
  "Application_findById state_1 100 = Some app_1
   \<and> getApplication state_1 recruiter_Q 100 = Inl Forbidden
   \<and> scheduleInterview date_of 6 state_1 recruiter_Q 100 request_I = (Inl Forbidden, state_1)
   \<and> updateStatus 6 state_1 recruiter_Q 100 ''interview'' None = (Inl Forbidden, state_1)
   \<and> updateStatus 6 state_1 recruiter_Q 100 ''hired'' None = (Inl InvalidStatus, state_1)"
proof -
  note t = non_owner_forbidden [OF find_app_1, where caller = recruiter_Q and now = 6
      and newDate = date_of and req = request_I and nt = None]
  from t [where st = "''interview''"]
  have 1: "getApplication state_1 recruiter_Q 100 = Inl Forbidden
     \<and> scheduleInterview date_of 6 state_1 recruiter_Q 100 request_I = (Inl Forbidden, state_1)
     \<and> updateStatus 6 state_1 recruiter_Q 100 ''interview'' None = (Inl Forbidden, state_1)"
    by (simp add: recruiter_Q_def app_1_def validStatuses_def)
  from t [where st = "''hired''"]
  have 2: "updateStatus 6 state_1 recruiter_Q 100 ''hired'' None = (Inl InvalidStatus, state_1)"
    by (simp add: recruiter_Q_def app_1_def validStatuses_def)
  from find_app_1 1 2 show ?thesis by blast
qed

section \<open>Timeline entries of a status change\<close>

text \<open>
  C1. The specification asks for exactly one timeline entry per status change. The routes
  push one entry themselves and the save hook pushes another whenever the saved status
  differs from the loaded one, so a successful \<open>updateStatus\<close>, \<open>scheduleInterview\<close> or
  \<open>withdraw\<close> that changes the status appends two entries (both with the new status), and
  one entry only when the status stays the same. In the scenario the recruiter's update of
  the freshly submitted application leaves a timeline of three entries.
\<close>

theorem status_change_timeline_entries:
  assumes "Application_findById s i = Some a"
  shows "(updateStatus now s caller i st nt = (Inr a', s') \<longrightarrow>
            timeline a' = timeline a @ status_entry now caller st nt #
              (if status a \<noteq> st then [hook_entry now st] else []))
       \<and> (scheduleInterview newDate now s caller i req = (Inr b', t') \<longrightarrow>
            timeline b' = timeline a @ interview_entry now caller req #
              (if status a \<noteq> ''interview'' then [hook_entry now ''interview''] else []))
       \<and> (withdraw now s caller i = (Inr u, w') \<longrightarrow>
            (\<exists>c'. Application_findById w' i = Some c' \<and>
               timeline c' = timeline a @ withdraw_entry now #
                 (if status a \<noteq> ''withdrawn'' then [hook_entry now ''withdrawn''] else [])))"
proof -
  have U: "timeline a' = timeline a @ status_entry now caller st nt #
              (if status a \<noteq> st then [hook_entry now st] else [])"
    if "updateStatus now s caller i st nt = (Inr a', s')"
    using that unfolding updateStatus_success [OF assms] by simp
  have I: "timeline b' = timeline a @ interview_entry now caller req #
              (if status a \<noteq> ''interview'' then [hook_entry now ''interview''] else [])"
    if "scheduleInterview newDate now s caller i req = (Inr b', t')"
    using that unfolding scheduleInterview_success [OF assms] by auto
  have W: "\<exists>c'. Application_findById w' i = Some c' \<and>
               timeline c' = timeline a @ withdraw_entry now #
                 (if status a \<noteq> ''withdrawn'' then [hook_entry now ''withdrawn''] else [])"
    if r: "withdraw now s caller i = (Inr u, w')"
  proof -
    define c' where "c' = status_saved a ''withdrawn'' (withdraw_entry now) now"
    from r have w': "w' = s\<lparr>applications := replace_application c' (applications s)\<rparr>"
      unfolding withdraw_success [OF assms] c'_def by simp
    have "a_id c' = a_id a" by (simp add: c'_def)
    with assms have "Application_findById w' i = Some c'"
      unfolding w' by (rule Application_findById_replace)
    moreover have "timeline c' = timeline a @ withdraw_entry now #
                 (if status a \<noteq> ''withdrawn'' then [hook_entry now ''withdrawn''] else [])"
      by (simp add: c'_def)
    ultimately show ?thesis by blast
  qed
  from U I W show ?thesis by blast
qed

theorem status_change_timeline_entries_witness:
  "submitApplication 5 state_0 student_S (Id 1) None [] = (Inr app_1, state_1)
   \<and> Application_findById state_1 100 = Some app_1
   \<and> length (timeline app_1) = 1
   \<and> (\<exists>a' s'. updateStatus 6 state_1 recruiter_R 100 ''interview'' (Some ''Let's talk'') = (Inr a', s')
         \<and> length (timeline a') = 3
         \<and> map t_status (timeline a') = [''pending'', ''interview'', ''interview''])"
proof -
  obtain a' s' where r:
    "updateStatus 6 state_1 recruiter_R 100 ''interview'' (Some ''Let's talk'') = (Inr a', s')"
    unfolding updateStatus_success [OF find_app_1]
    by (simp add: recruiter_R_def app_1_def validStatuses_def)
  from status_change_timeline_entries [OF find_app_1, where now = 6 and caller = recruiter_R
      and st = "''interview''" and nt = "Some ''Let's talk''" and a' = a' and s' = s'] r
  have "length (timeline a') = 3
         \<and> map t_status (timeline a') = [''pending'', ''interview'', ''interview'']"
    by (simp add: app_1_def)
  with r submit_scenario find_app_1 show ?thesis by (simp add: app_1_def)
qed

text \<open>
  C3. After a successful \<open>updateStatus\<close> the stored application is the answer and its status
  is the new status. The last timeline entry carries the caller's note and the caller as
  actor only when the status did not change; when it changed, the last entry is the hook's,
  with the default note and no actor, and the caller's entry stands before it. In the
  scenario the timeline has length 3 and its last note is "Status changed to interview",
  where the specification expects length 2 and "Let's talk".
\<close>

theorem updateStatus_last_entry:
  assumes "Application_findById s i = Some a"
    and "updateStatus now s caller i st nt = (Inr a', s')"
  shows "Application_findById s' i = Some a' \<and> status a' = st
       \<and> length (timeline a') = length (timeline a) + (if status a \<noteq> st then 2 else 1)
       \<and> last (timeline a') =
           (if status a \<noteq> st then hook_entry now st else status_entry now caller st nt)"
proof -
  from assms(2) have a': "a' = status_saved a st (status_entry now caller st nt) now"
    and s': "s' = s\<lparr>applications := replace_application a' (applications s)\<rparr>"
    unfolding updateStatus_success [OF assms(1)] by simp_all
  have "a_id a' = a_id a" by (simp add: a')
  with assms(1) have "Application_findById s' i = Some a'"
    unfolding s' by (rule Application_findById_replace)
  then show ?thesis by (simp add: a')
qed

theorem updateStatus_last_entry_witness:
  "submitApplication 5 state_0 student_S (Id 1) None [] = (Inr app_1, state_1)
   \<and> Application_findById state_1 100 = Some app_1
   \<and> (\<exists>a' s'. updateStatus 6 state_1 recruiter_R 100 ''interview'' (Some ''Let's talk'') = (Inr a', s')
         \<and> status a' = ''interview''
         \<and> length (timeline a') = 3
         \<and> t_note (last (timeline a')) = ''Status changed to interview''
         \<and> t_updatedBy (last (timeline a')) = None)"
proof -
  obtain a' s' where r:
    "updateStatus 6 state_1 recruiter_R 100 ''interview'' (Some ''Let's talk'') = (Inr a', s')"
    unfolding updateStatus_success [OF find_app_1]
    by (simp add: recruiter_R_def app_1_def validStatuses_def)
  from updateStatus_last_entry [OF find_app_1 r]
  have "status a' = ''interview'' \<and> length (timeline a') = 3
         \<and> t_note (last (timeline a')) = ''Status changed to interview''
         \<and> t_updatedBy (last (timeline a')) = None"
    by (simp add: app_1_def)
  with r submit_scenario find_app_1 show ?thesis by blast
qed

section \<open>Submission\<close>

lemma Application_findOne_None:
  "Application_findOne s jobId uid = None \<longleftrightarrow>
     \<not> list_ex (\<lambda>b. job b = jobId \<and> student b = uid) (applications s)"
  by (auto simp add: Application_findOne_def find_None_iff list_ex_iff)

lemma Application_create_ok:
  assumes "validateApplication cl" and "Application_findOne s jobId uid = None"
  shows "Application_create now s jobId uid rid cl ans [submitted_entry now] =
     Inr (created now s jobId uid rid cl ans,
          s\<lparr>applications := applications s @ [created now s jobId uid rid cl ans],
            next_id := Suc (next_id s)\<rparr>)"
proof -
  have cl: "(case cl of None \<Rightarrow> True | Some c \<Rightarrow> length c \<le> 2000)"
    using assms(1) by (simp add: validateApplication_def)
  have ex: "\<not> list_ex (\<lambda>b. job b = jobId \<and> student b = uid) (applications s)"
    using assms(2) by (simp add: Application_findOne_None)
  show ?thesis
    unfolding Application_create_def Application_save_def
    using cl ex by (simp add: validates_def pre_save_def status_enum_def Let_def)
qed

lemma Job_validates_counted: "Job_validates (j\<lparr>applicationCount := c\<rparr>) = Job_validates j"
  by (simp add: Job_validates_def)

text \<open>
  A submission that has passed the middleware and the four checks: what is left is the
  recruiter reference, the insert and the counter.
\<close>

lemma submitApplication_reached:
  assumes "u_role caller = Student" and "validateApplication cl"
    and "Job_findById s jid = Some j" and "j_status j = ''active''" and "deadline_open j now"
    and "Application_findOne s jid (u_id caller) = None"
  shows "submitApplication now s caller (Id jid) cl ans =
     (case populate_recruiter s j of
        None \<Rightarrow> (Inl ServerError, s)
      | Some rid \<Rightarrow>
          if Job_validates j
          then (Inr (created now s jid (u_id caller) rid cl ans),
                s\<lparr>applications := applications s @ [created now s jid (u_id caller) rid cl ans],
                  next_id := Suc (next_id s),
                  jobs := replace_job (counted j) (jobs s)\<rparr>)
          else (Inl ServerError,
                s\<lparr>applications := applications s @ [created now s jid (u_id caller) rid cl ans],
                  next_id := Suc (next_id s)\<rparr>))"
proof -
  from assms(1) have au: "authorize [Student] caller" by (simp add: authorize_def)
  have dl: "\<not> (case applicationDeadline j of None \<Rightarrow> False | Some dl \<Rightarrow> now > dl)"
    using assms(5) by (auto split: option.splits)
  show ?thesis
    unfolding submitApplication_def
    using au assms(2,3,4,6) dl
    by (simp add: Application_create_ok [OF assms(2,6)] incrementApplicationCount_def
          Job_save_def Job_validates_counted split: option.splits)
qed

lemma submitApplication_unreached:
  assumes "\<not> (u_role caller = Student \<and> validateApplication cl
            \<and> (\<exists>jid j. jobId = Id jid \<and> Job_findById s jid = Some j \<and> j_status j = ''active''
                  \<and> deadline_open j now \<and> Application_findOne s jid (u_id caller) = None))"
  shows "\<exists>e. submitApplication now s caller jobId cl ans = (Inl e, s)"
proof (cases "u_role caller = Student \<and> validateApplication cl")
  case False
  then show ?thesis unfolding submitApplication_def by (auto simp: authorize_def)
next
  case True
  then have au: "authorize [Student] caller" and v: "validateApplication cl"
    by (simp_all add: authorize_def)
  show ?thesis
  proof (cases jobId)
    case Absent
    with au v show ?thesis unfolding submitApplication_def by simp
  next
    case Uncastable
    with au v show ?thesis unfolding submitApplication_def by simp
  next
    case (Id jid)
    show ?thesis
    proof (cases "Job_findById s jid")
      case None
      with au v Id show ?thesis unfolding submitApplication_def by simp
    next
      case (Some j)
      show ?thesis
      proof (cases "j_status j = ''active''")
        case False
        with au v Id Some show ?thesis unfolding submitApplication_def by simp
      next
        case active: True
        show ?thesis
        proof (cases "deadline_open j now")
          case False
          then have "(case applicationDeadline j of None \<Rightarrow> False | Some dl \<Rightarrow> now > dl)"
            by (auto split: option.splits)
          with au v Id Some active show ?thesis unfolding submitApplication_def by simp
        next
          case dopen: True
          then have dl: "\<not> (case applicationDeadline j of None \<Rightarrow> False | Some dl \<Rightarrow> now > dl)"
            by (auto split: option.splits)
          from assms True Id Some active dopen
          obtain b where "Application_findOne s jid (u_id caller) = Some b" by auto
          with au v Id Some active dl show ?thesis unfolding submitApplication_def by simp
        qed
      qed
    qed
  qed
qed

lemma submitApplication_success:
  "submitApplication now s caller jobId cl ans = (Inr a, s') \<longleftrightarrow>
     u_role caller = Student \<and> validateApplication cl
     \<and> (\<exists>jid j rid. jobId = Id jid \<and> Job_findById s jid = Some j \<and> j_status j = ''active''
            \<and> deadline_open j now \<and> Application_findOne s jid (u_id caller) = None
            \<and> populate_recruiter s j = Some rid \<and> Job_validates j
            \<and> a = created now s jid (u_id caller) rid cl ans
            \<and> s' = s\<lparr>applications := applications s @ [a], next_id := Suc (next_id s),
                      jobs := replace_job (counted j) (jobs s)\<rparr>)"
proof (cases "u_role caller = Student \<and> validateApplication cl
            \<and> (\<exists>jid j. jobId = Id jid \<and> Job_findById s jid = Some j \<and> j_status j = ''active''
                  \<and> deadline_open j now \<and> Application_findOne s jid (u_id caller) = None)")
  case False
  from submitApplication_unreached [OF False, of ans]
  obtain e where "submitApplication now s caller jobId cl ans = (Inl e, s)" by blast
  with False show ?thesis by auto
next
  case True
  then obtain jid j where h: "u_role caller = Student" "validateApplication cl"
    "Job_findById s jid = Some j" "j_status j = ''active''" "deadline_open j now"
    "Application_findOne s jid (u_id caller) = None" and jobId: "jobId = Id jid"
    by blast
  show ?thesis
    unfolding jobId submitApplication_reached [OF h]
    using h by (auto split: option.splits)
qed

lemma submitApplication_failure:
  assumes "submitApplication now s caller jobId cl ans = (Inl e, s')"
  shows "s' = s
       \<or> e = ServerError
         \<and> (\<exists>jid j rid. jobId = Id jid \<and> Job_findById s jid = Some j
               \<and> populate_recruiter s j = Some rid \<and> \<not> Job_validates j
               \<and> Application_findOne s jid (u_id caller) = None
               \<and> s' = s\<lparr>applications := applications s @ [created now s jid (u_id caller) rid cl ans],
                         next_id := Suc (next_id s)\<rparr>)"
proof (cases "u_role caller = Student \<and> validateApplication cl
            \<and> (\<exists>jid j. jobId = Id jid \<and> Job_findById s jid = Some j \<and> j_status j = ''active''
                  \<and> deadline_open j now \<and> Application_findOne s jid (u_id caller) = None)")
  case False
  from submitApplication_unreached [OF False, of ans] assms show ?thesis by auto
next
  case True
  then obtain jid j where h: "u_role caller = Student" "validateApplication cl"
    "Job_findById s jid = Some j" "j_status j = ''active''" "deadline_open j now"
    "Application_findOne s jid (u_id caller) = None" and jobId: "jobId = Id jid"
    by blast
  from assms show ?thesis
    unfolding jobId submitApplication_reached [OF h]
    using h by (auto split: option.splits if_splits)
qed

lemma Job_findById_counted:
  assumes "Job_findById s jid = Some j"
  shows "Job_findById (s\<lparr>applications := as, next_id := n,
                          jobs := replace_job (counted j) (jobs s)\<rparr>) jid = Some (counted j)"
proof -
  from assms have "find (\<lambda>k. j_id k = jid) (jobs s) = Some j"
    by (simp add: Job_findById_def)
  moreover from this have "j_id j = jid" by (rule find_j_id)
  ultimately show ?thesis
    unfolding Job_findById_def by (simp add: find_replace_job)
qed

lemma submitApplication_Expired:
  assumes "submitApplication now s caller jobId cl ans = (Inl Expired, t)"
  shows "\<exists>i k dl. jobId = Id i \<and> Job_findById s i = Some k \<and> j_status k = ''active''
           \<and> applicationDeadline k = Some dl \<and> dl < now"
proof (cases "u_role caller = Student \<and> validateApplication cl
            \<and> (\<exists>jid j. jobId = Id jid \<and> Job_findById s jid = Some j \<and> j_status j = ''active''
                  \<and> deadline_open j now \<and> Application_findOne s jid (u_id caller) = None)")
  case True
  then obtain jid j where h: "u_role caller = Student" "validateApplication cl"
    "Job_findById s jid = Some j" "j_status j = ''active''" "deadline_open j now"
    "Application_findOne s jid (u_id caller) = None" and jobId: "jobId = Id jid"
    by blast
  from assms show ?thesis
    unfolding jobId submitApplication_reached [OF h]
    by (auto split: option.splits if_splits)
next
  case False
  with assms show ?thesis
    unfolding submitApplication_def
    by (auto simp: authorize_def split: if_splits option.splits body_id.splits)
qed

lemma submit_at_deadline:
  "fst (submitApplication 5 state_D student_S (Id 1) None []) = Inr app_1"
  by (simp add: submitApplication_def authorize_def validateApplication_def Job_findById_def
        Application_findOne_def Application_create_def Application_save_def validates_def
        pre_save_def isModified_def incrementApplicationCount_def status_enum_def Let_def
        populate_recruiter_def Job_save_def Job_validates_def required_string_def
        jobType_enum_def add_one_0
        state_D_def job_D_def student_S_def job_J_def app_1_def)

lemma find_job_D: "Job_findById state_D 1 = Some job_D"
  by (simp add: Job_findById_def state_D_def job_D_def job_J_def)

text \<open>
  C5. For a student whose cover letter passes the length validation, and a job id that is
  missing or casts to an ObjectId, \<open>submitApplication\<close> checks in the order of the
  specification: \<open>NotFound\<close> when the job does not exist; else \<open>InvalidState\<close> when the job
  is not active; else \<open>Expired\<close> when a deadline is set and the clock is after it (the
  instant of the deadline itself passes); else \<open>Conflict\<close> when the student already has an
  application for the job; each of these leaves the state as it was, and a success implies
  that all four checks passed. The route does not check the format of the id, though: for an
  id that does not cast, where no job exists either, the lookup throws and the answer is
  \<open>ServerError\<close> instead of \<open>NotFound\<close>.
\<close>

theorem submitApplication_precondition_order:
  assumes "u_role caller = Student" and "validateApplication cl"
  shows "submitApplication now s caller Uncastable cl ans = (Inl ServerError, s)
       \<and> submitApplication now s caller Absent cl ans = (Inl NotFound, s)
       \<and> (Job_findById s jid = None \<longrightarrow>
            submitApplication now s caller (Id jid) cl ans = (Inl NotFound, s))
       \<and> (Job_findById s jid = Some j \<and> j_status j \<noteq> ''active'' \<longrightarrow>
            submitApplication now s caller (Id jid) cl ans = (Inl InvalidState, s))
       \<and> (Job_findById s jid = Some j \<and> j_status j = ''active''
            \<and> applicationDeadline j = Some dl \<and> now > dl \<longrightarrow>
            submitApplication now s caller (Id jid) cl ans = (Inl Expired, s))
       \<and> (Job_findById s jid = Some j \<and> j_status j = ''active'' \<and> deadline_open j now
            \<and> Application_findOne s jid (u_id caller) \<noteq> None \<longrightarrow>
            submitApplication now s caller (Id jid) cl ans = (Inl Conflict, s))
       \<and> (submitApplication now s caller jobId cl ans = (Inl Expired, t) \<longrightarrow>
            (\<exists>i k d. jobId = Id i \<and> Job_findById s i = Some k \<and> j_status k = ''active''
                  \<and> applicationDeadline k = Some d \<and> d < now))
       \<and> (submitApplication now s caller jobId cl ans = (Inr a, s') \<longrightarrow>
            (\<exists>i k. jobId = Id i \<and> Job_findById s i = Some k \<and> j_status k = ''active''
                  \<and> deadline_open k now \<and> Application_findOne s i (u_id caller) = None))"
proof -
  from assms have au: "authorize [Student] caller" by (simp add: authorize_def)
  have 7: "\<exists>i k d. jobId = Id i \<and> Job_findById s i = Some k \<and> j_status k = ''active''
                  \<and> applicationDeadline k = Some d \<and> d < now"
    if "submitApplication now s caller jobId cl ans = (Inl Expired, t)"
    using that by (rule submitApplication_Expired)
  have 0: "submitApplication now s caller Uncastable cl ans = (Inl ServerError, s)"
    using au assms(2) unfolding submitApplication_def by simp
  have 1: "submitApplication now s caller Absent cl ans = (Inl NotFound, s)"
    using au assms(2) unfolding submitApplication_def by simp
  have 2: "submitApplication now s caller (Id jid) cl ans = (Inl NotFound, s)"
    if "Job_findById s jid = None"
    using that au assms(2) unfolding submitApplication_def by simp
  have 3: "submitApplication now s caller (Id jid) cl ans = (Inl InvalidState, s)"
    if "Job_findById s jid = Some j \<and> j_status j \<noteq> ''active''"
    using that au assms(2) unfolding submitApplication_def by simp
  have 4: "submitApplication now s caller (Id jid) cl ans = (Inl Expired, s)"
    if "Job_findById s jid = Some j \<and> j_status j = ''active''
            \<and> applicationDeadline j = Some dl \<and> now > dl"
    using that au assms(2) unfolding submitApplication_def by simp
  have 5: "submitApplication now s caller (Id jid) cl ans = (Inl Conflict, s)"
    if "Job_findById s jid = Some j \<and> j_status j = ''active'' \<and> deadline_open j now
            \<and> Application_findOne s jid (u_id caller) \<noteq> None"
    using that au assms(2) unfolding submitApplication_def
    by (auto split: option.splits)
  have 6: "\<exists>i k. jobId = Id i \<and> Job_findById s i = Some k \<and> j_status k = ''active''
                  \<and> deadline_open k now \<and> Application_findOne s i (u_id caller) = None"
    if "submitApplication now s caller jobId cl ans = (Inr a, s')"
    using that unfolding submitApplication_success by blast
  from 0 1 2 3 4 5 6 7 show ?thesis by blast
qed

theorem submitApplication_precondition_order_witness:
  "u_role student_S = Student \<and> validateApplication None
   \<and> submitApplication 5 state_D student_S Uncastable None [] = (Inl ServerError, state_D)
   \<and> submitApplication 5 state_D student_S (Id 2) None [] = (Inl NotFound, state_D)
   \<and> submitApplication 6 state_D student_S (Id 1) None [] = (Inl Expired, state_D)
   \<and> applicationDeadline job_D = Some 5
   \<and> fst (submitApplication 5 state_D student_S (Id 1) None []) = Inr app_1
   \<and> submitApplication 5 state_1 student_S (Id 1) None [] = (Inl Conflict, state_1)"
proof -
  have d: "applicationDeadline job_D = Some 5" by (simp add: job_D_def)
  have r: "u_role student_S = Student" by (simp add: student_S_def)
  have v: "validateApplication None" by (simp add: validateApplication_def)
  note t = submitApplication_precondition_order [OF r v]
  from t [where s = state_D and now = 5 and ans = "[]"]
  have 0: "submitApplication 5 state_D student_S Uncastable None [] = (Inl ServerError, state_D)"
    by simp
  from t [where s = state_D and jid = 2 and now = 5 and ans = "[]"]
  have 1: "submitApplication 5 state_D student_S (Id 2) None [] = (Inl NotFound, state_D)"
    by (simp add: Job_findById_def state_D_def job_D_def job_J_def)
  from t [where s = state_D and jid = 1 and now = 6 and ans = "[]" and j = job_D and dl = 5]
    find_job_D
  have 2: "submitApplication 6 state_D student_S (Id 1) None [] = (Inl Expired, state_D)"
    by (simp add: job_D_def job_J_def)
  from t [where s = state_1 and jid = 1 and now = 5 and ans = "[]"
      and j = "job_J\<lparr>applicationCount := Num 1\<rparr>"]
  have 3: "submitApplication 5 state_1 student_S (Id 1) None [] = (Inl Conflict, state_1)"
    by (simp add: Job_findById_def Application_findOne_def state_1_def job_J_def app_1_def
          student_S_def)
  from r v 0 1 2 d submit_at_deadline 3 show ?thesis by blast
qed

lemma add_one_2_53_numeral: "add_one (Num 9007199254740992) = Num 9007199254740992"
  using add_one_2_53 by simp

text \<open>
  C6, as stated in the specification, fails: the counter is a double. When it stands at
  \<open>2\<^sup>5\<^sup>3\<close> a submission succeeds and creates its record, and the counter is still
  \<open>2\<^sup>5\<^sup>3\<close> afterwards.
\<close>

theorem counter_at_2_53_counterexample:
  "fst (submitApplication 5 state_B student_S (Id 1) None []) = Inr app_1
   \<and> map applicationCount (jobs state_B) = [Num (2 ^ 53)]
   \<and> map applicationCount (jobs (snd (submitApplication 5 state_B student_S (Id 1) None [])))
       = [Num (2 ^ 53)]"
  by (simp add: submitApplication_def authorize_def validateApplication_def Job_findById_def
        Application_findOne_def Application_create_def Application_save_def validates_def
        pre_save_def isModified_def incrementApplicationCount_def status_enum_def Let_def
        populate_recruiter_def Job_save_def Job_validates_def required_string_def
        jobType_enum_def add_one_2_53_numeral
        state_B_def job_B_def student_S_def job_J_def app_1_def)

lemma find_job_X: "Job_findById state_X 1 = Some job_X"
  by (simp add: Job_findById_def state_X_def job_X_def job_J_def)

text \<open>
  C6, amended. A successful \<open>submitApplication\<close> appends exactly one record to the
  applications: the answer, with status \<open>pending\<close> and the single timeline entry
  "Application submitted" of status \<open>pending\<close>; and the job's \<open>applicationCount\<close> becomes the
  JavaScript sum of the old count and 1, which is exactly one more whenever the old count
  is a non-negative integer below \<open>2\<^sup>5\<^sup>3\<close>. A \<open>submitApplication\<close> that fails with any
  error but \<open>ServerError\<close> leaves the whole state, applications and counters, unchanged.
  One that fails with \<open>ServerError\<close> either leaves the state unchanged too, or, when the
  save of the job is rejected after the record has been stored, leaves exactly the created
  record appended and all jobs and their counters unchanged.
\<close>

theorem submitApplication_effect:
  "(submitApplication now s caller jobId cl ans = (Inr a, s') \<longrightarrow>
      status a = ''pending'' \<and> timeline a = [submitted_entry now]
      \<and> applications s' = applications s @ [a]
      \<and> (\<exists>jid j j'. jobId = Id jid \<and> job a = jid \<and> student a = u_id caller
             \<and> Job_findById s jid = Some j \<and> Job_findById s' jid = Some j'
             \<and> applicationCount j' = add_one (applicationCount j)
             \<and> (\<forall>n. 0 \<le> n \<and> n < 2 ^ 53 \<and> applicationCount j = Num (of_int n) \<longrightarrow>
                    applicationCount j' = Num (of_int n + 1))))
   \<and> (submitApplication now s caller jobId cl ans = (Inl e, t) \<and> e \<noteq> ServerError \<longrightarrow> t = s)
   \<and> (submitApplication now s caller jobId cl ans = (Inl ServerError, w) \<longrightarrow>
        w = s
        \<or> jobs w = jobs s
          \<and> (\<exists>b jid j. applications w = applications s @ [b] \<and> status b = ''pending''
                 \<and> timeline b = [submitted_entry now] \<and> jobId = Id jid
                 \<and> job b = jid \<and> student b = u_id caller
                 \<and> Job_findById s jid = Some j \<and> \<not> Job_validates j))"
proof -
  have S: "status a = ''pending'' \<and> timeline a = [submitted_entry now]
      \<and> applications s' = applications s @ [a]
      \<and> (\<exists>jid j j'. jobId = Id jid \<and> job a = jid \<and> student a = u_id caller
             \<and> Job_findById s jid = Some j \<and> Job_findById s' jid = Some j'
             \<and> applicationCount j' = add_one (applicationCount j)
             \<and> (\<forall>n. 0 \<le> n \<and> n < 2 ^ 53 \<and> applicationCount j = Num (of_int n) \<longrightarrow>
                    applicationCount j' = Num (of_int n + 1)))"
    if r: "submitApplication now s caller jobId cl ans = (Inr a, s')"
  proof -
    from r obtain jid j rid where jobId: "jobId = Id jid" and j: "Job_findById s jid = Some j"
      and a: "a = created now s jid (u_id caller) rid cl ans"
      and s': "s' = s\<lparr>applications := applications s @ [a], next_id := Suc (next_id s),
                      jobs := replace_job (counted j) (jobs s)\<rparr>"
      unfolding submitApplication_success by blast
    have j': "Job_findById s' jid = Some (counted j)"
      unfolding s' using j by (rule Job_findById_counted)
    have small: "\<forall>n. 0 \<le> n \<and> n < 2 ^ 53 \<and> applicationCount j = Num (of_int n) \<longrightarrow>
                    applicationCount (counted j) = Num (of_int n + 1)"
      by (simp add: add_one_small)
    have "applications s' = applications s @ [a]" by (simp add: s')
    moreover have "status a = ''pending'' \<and> timeline a = [submitted_entry now]
      \<and> job a = jid \<and> student a = u_id caller"
      by (simp add: a)
    moreover have "applicationCount (counted j) = add_one (applicationCount j)" by simp
    ultimately show ?thesis using jobId j j' small by blast
  qed
  have F: "t = s"
    if "submitApplication now s caller jobId cl ans = (Inl e, t) \<and> e \<noteq> ServerError"
    using submitApplication_failure [of now s caller jobId cl ans e t] that by blast
  have E: "w = s
        \<or> jobs w = jobs s
          \<and> (\<exists>b jid j. applications w = applications s @ [b] \<and> status b = ''pending''
                 \<and> timeline b = [submitted_entry now] \<and> jobId = Id jid
                 \<and> job b = jid \<and> student b = u_id caller
                 \<and> Job_findById s jid = Some j \<and> \<not> Job_validates j)"
    if r: "submitApplication now s caller jobId cl ans = (Inl ServerError, w)"
  proof (cases "w = s")
    case True
    then show ?thesis by simp
  next
    case False
    with submitApplication_failure [OF r]
    obtain jid j rid where jobId: "jobId = Id jid" and j: "Job_findById s jid = Some j"
      and nv: "\<not> Job_validates j"
      and w: "w = s\<lparr>applications := applications s @ [created now s jid (u_id caller) rid cl ans],
                         next_id := Suc (next_id s)\<rparr>"
      by blast
    define b where "b = created now s jid (u_id caller) rid cl ans"
    have "applications w = applications s @ [b]" and "jobs w = jobs s"
      by (simp_all add: w b_def)
    moreover have "status b = ''pending'' \<and> timeline b = [submitted_entry now]
      \<and> job b = jid \<and> student b = u_id caller"
      by (simp add: b_def)
    ultimately show ?thesis using jobId j nv by blast
  qed
  from S F E show ?thesis by blast
qed

theorem submitApplication_effect_witness:
  "(\<exists>a s' j j'. submitApplication 5 state_0 student_S (Id 1) None [] = (Inr a, s')
      \<and> status a = ''pending''
      \<and> timeline a = [\<lparr>t_status = ''pending'', t_date = 5, t_note = ''Application submitted'',
                        t_updatedBy = None\<rparr>]
      \<and> applications s' = [a]
      \<and> Job_findById state_0 1 = Some j \<and> Job_findById s' 1 = Some j'
      \<and> applicationCount j = Num 0 \<and> applicationCount j' = Num 1)
   \<and> submitApplication 6 state_1 student_S (Id 1) None [] = (Inl Conflict, state_1)
   \<and> applications state_1 = [app_1]
   \<and> (\<exists>w b. submitApplication 5 state_X student_S (Id 1) None [] = (Inl ServerError, w)
         \<and> jobs w = jobs state_X \<and> applications w = [b] \<and> status b = ''pending'')"
proof -
  have c: "submitApplication 6 state_1 student_S (Id 1) None [] = (Inl Conflict, state_1)"
    by (simp add: submitApplication_def authorize_def validateApplication_def Job_findById_def
          Application_findOne_def state_1_def student_S_def job_J_def app_1_def)
  from submitApplication_effect [where now = 5 and s = state_0 and caller = student_S
      and jobId = "Id 1" and cl = None and ans = "[]" and a = app_1 and s' = state_1]
    submit_scenario
  obtain j j' where 1: "status app_1 = ''pending'' \<and> timeline app_1 = [submitted_entry 5]
      \<and> applications state_1 = applications state_0 @ [app_1]"
    and j: "Job_findById state_0 1 = Some j" "Job_findById state_1 1 = Some j'"
    and n: "\<forall>n. 0 \<le> n \<and> n < 2 ^ 53 \<and> applicationCount j = Num (of_int n) \<longrightarrow>
                    applicationCount j' = Num (of_int n + 1)"
    by auto
  from j(1) have j0: "applicationCount j = Num 0"
    by (auto simp: Job_findById_def state_0_def job_J_def)
  with n [rule_format, of 0] have j1: "applicationCount j' = Num 1" by simp
  from submitApplication_effect [where now = 6 and s = state_1 and caller = student_S
      and jobId = "Id 1" and cl = None and ans = "[]" and e = Conflict and t = state_1] c
  have 2: "applications state_1 = [app_1]" by (simp add: state_1_def)
  have x: "submitApplication 5 state_X student_S (Id 1) None [] =
     (Inl ServerError,
      state_X\<lparr>applications := applications state_X @ [created 5 state_X 1 10 20 None []],
              next_id := Suc (next_id state_X)\<rparr>)"
    using submitApplication_reached [where now = 5 and s = state_X and caller = student_S
        and jid = 1 and cl = None and ans = "[]" and j = job_X] find_job_X
    by (simp add: student_S_def validateApplication_def job_X_def job_J_def
          Application_findOne_def state_X_def populate_recruiter_def Job_validates_def
          required_string_def)
  from submitApplication_effect [where now = 5 and s = state_X and caller = student_S
      and jobId = "Id 1" and cl = None and ans = "[]"
      and w = "state_X\<lparr>applications := applications state_X @ [created 5 state_X 1 10 20 None []],
              next_id := Suc (next_id state_X)\<rparr>"] x
  have 3: "\<exists>w b. submitApplication 5 state_X student_S (Id 1) None [] = (Inl ServerError, w)
         \<and> jobs w = jobs state_X \<and> applications w = [b] \<and> status b = ''pending''"
    by (simp add: state_X_def)
  from 1 j j0 j1 submit_scenario c 2 3 show ?thesis
    by (auto simp: state_0_def)
qed

section \<open>One application per job and student\<close>

text \<open>
  No route removes an application or changes its job or student, and the submission route
  adds one only for a pair that has none: the keys of the index stay, and stay distinct.
\<close>

lemma updateStatus_failure:
  "updateStatus now s caller i st nt = (Inl e, s') \<Longrightarrow> s' = s"
  unfolding updateStatus_def
  by (auto simp: Let_def split: if_splits option.splits sum.splits prod.splits)

lemma scheduleInterview_failure:
  "scheduleInterview newDate now s caller i req = (Inl e, s') \<Longrightarrow> s' = s"
  unfolding scheduleInterview_def
  by (auto simp: Let_def split: if_splits option.splits sum.splits prod.splits)

lemma withdraw_failure:
  "withdraw now s caller i = (Inl e, s') \<Longrightarrow> s' = s"
  unfolding withdraw_def
  by (auto simp: Let_def split: if_splits option.splits sum.splits prod.splits)

lemma updateStatus_NotFound:
  "Application_findById s i = None \<Longrightarrow> snd (updateStatus now s caller i st nt) = s"
  unfolding updateStatus_def by simp

lemma scheduleInterview_NotFound:
  "Application_findById s i = None \<Longrightarrow> snd (scheduleInterview newDate now s caller i req) = s"
  unfolding scheduleInterview_def by simp

lemma withdraw_NotFound:
  "Application_findById s i = None \<Longrightarrow> snd (withdraw now s caller i) = s"
  unfolding withdraw_def by simp

lemma replace_pairs:
  assumes "Application_findById s i = Some a" and "a_id a' = a_id a"
    and "job a' = job a" and "student a' = student a"
  shows "pairs (s\<lparr>applications := replace_application a' (applications s)\<rparr>) = pairs s"
proof -
  from assms(1) have f: "find (\<lambda>b. a_id b = i) (applications s) = Some a"
    by (simp add: Application_findById_def)
  then have "a_id a = i" by (rule find_a_id)
  with f assms(2) have "find (\<lambda>b. a_id b = a_id a') (applications s) = Some a" by simp
  then have "map (\<lambda>a. (job a, student a)) (replace_application a' (applications s))
             = map (\<lambda>a. (job a, student a)) (applications s)"
    by (rule map_replace_application) (simp add: assms(3,4))
  then show ?thesis by (simp add: pairs_def)
qed

lemma updateStatus_pairs:
  "pairs (snd (updateStatus now s caller i st nt)) = pairs s"
proof (cases "Application_findById s i")
  case None
  then show ?thesis by (simp add: updateStatus_NotFound)
next
  case (Some a)
  obtain x s' where r: "updateStatus now s caller i st nt = (x, s')" by (cases "updateStatus now s caller i st nt")
  show ?thesis
  proof (cases x)
    case (Inl e)
    with r have "s' = s" by (simp add: updateStatus_failure)
    with r show ?thesis by simp
  next
    case (Inr a')
    with r have r': "updateStatus now s caller i st nt = (Inr a', s')" by simp
    then have a': "a' = status_saved a st (status_entry now caller st nt) now"
      and s': "s' = s\<lparr>applications := replace_application a' (applications s)\<rparr>"
      unfolding updateStatus_success [OF Some] by simp_all
    have "pairs (s\<lparr>applications := replace_application a' (applications s)\<rparr>) = pairs s"
      using Some by (rule replace_pairs) (simp_all add: a')
    with r s' show ?thesis by simp
  qed
qed

lemma scheduleInterview_pairs:
  "pairs (snd (scheduleInterview newDate now s caller i req)) = pairs s"
proof (cases "Application_findById s i")
  case None
  then show ?thesis by (simp add: scheduleInterview_NotFound)
next
  case (Some a)
  obtain x s' where r: "scheduleInterview newDate now s caller i req = (x, s')"
    by (cases "scheduleInterview newDate now s caller i req")
  show ?thesis
  proof (cases x)
    case (Inl e)
    with r have "s' = s" by (simp add: scheduleInterview_failure)
    with r show ?thesis by simp
  next
    case (Inr a')
    with r have r': "scheduleInterview newDate now s caller i req = (Inr a', s')" by simp
    then obtain t where a': "a' = interview_saved a req t (interview_entry now caller req) now"
      and s': "s' = s\<lparr>applications := replace_application a' (applications s)\<rparr>"
      unfolding scheduleInterview_success [OF Some] by blast
    have "pairs (s\<lparr>applications := replace_application a' (applications s)\<rparr>) = pairs s"
      using Some by (rule replace_pairs) (simp_all add: a')
    with r s' show ?thesis by simp
  qed
qed

lemma withdraw_pairs:
  "pairs (snd (withdraw now s caller i)) = pairs s"
proof (cases "Application_findById s i")
  case None
  then show ?thesis by (simp add: withdraw_NotFound)
next
  case (Some a)
  obtain x s' where r: "withdraw now s caller i = (x, s')" by (cases "withdraw now s caller i")
  show ?thesis
  proof (cases x)
    case (Inl e)
    with r have "s' = s" by (simp add: withdraw_failure)
    with r show ?thesis by simp
  next
    case (Inr u)
    define a' where "a' = status_saved a ''withdrawn'' (withdraw_entry now) now"
    from Inr r have r': "withdraw now s caller i = (Inr u, s')" by simp
    then have s': "s' = s\<lparr>applications := replace_application a' (applications s)\<rparr>"
      unfolding withdraw_success [OF Some] a'_def by simp
    have "pairs (s\<lparr>applications := replace_application a' (applications s)\<rparr>) = pairs s"
      using Some by (rule replace_pairs) (simp_all add: a'_def)
    with r s' show ?thesis by simp
  qed
qed



lemma Application_findOne_pairs:
  "Application_findOne s jobId uid = None \<longleftrightarrow> (jobId, uid) \<notin> set (pairs s)"
  by (auto simp: Application_findOne_def find_None_iff pairs_def)

lemma submitApplication_pairs:
  "pairs (snd (submitApplication now s caller jobId cl ans)) = pairs s
   \<or> (\<exists>p. p \<notin> set (pairs s)
          \<and> pairs (snd (submitApplication now s caller jobId cl ans)) = pairs s @ [p])"
proof -
  obtain x s' where r: "submitApplication now s caller jobId cl ans = (x, s')"
    by (cases "submitApplication now s caller jobId cl ans")
  show ?thesis
  proof (cases x)
    case (Inl e)
    with r have r': "submitApplication now s caller jobId cl ans = (Inl e, s')" by simp
    show ?thesis
    proof (cases "s' = s")
      case True
      with r show ?thesis by simp
    next
      case False
      with submitApplication_failure [OF r']
      obtain jid rid where n: "Application_findOne s jid (u_id caller) = None"
        and s': "s' = s\<lparr>applications := applications s @ [created now s jid (u_id caller) rid cl ans],
                         next_id := Suc (next_id s)\<rparr>"
        by blast
      have "pairs s' = pairs s @ [(jid, u_id caller)]"
        by (simp add: s' pairs_def)
      with n r show ?thesis by (simp add: Application_findOne_pairs)
    qed
  next
    case (Inr a)
    with r have r': "submitApplication now s caller jobId cl ans = (Inr a, s')" by simp
    then obtain jid j rid where n: "Application_findOne s jid (u_id caller) = None"
      and a: "a = created now s jid (u_id caller) rid cl ans"
      and s': "s' = s\<lparr>applications := applications s @ [a], next_id := Suc (next_id s),
                      jobs := replace_job (counted j) (jobs s)\<rparr>"
      unfolding submitApplication_success by blast
    have "pairs s' = pairs s @ [(jid, u_id caller)]"
      by (simp add: s' a pairs_def)
    with n r show ?thesis by (simp add: Application_findOne_pairs)
  qed
qed

lemma pairs_users_update: "pairs (s\<lparr>users := us\<rparr>) = pairs s"
  by (simp add: pairs_def)

lemma pairs_jobs_update: "pairs (s\<lparr>jobs := js\<rparr>) = pairs s"
  by (simp add: pairs_def)

lemma handle_pairs:
  "pairs (handle newDate s r) = pairs s
   \<or> (\<exists>p. p \<notin> set (pairs s) \<and> pairs (handle newDate s r) = pairs s @ [p])"
proof (cases r)
  case (PostApplication now c j cl ans)
  with submitApplication_pairs [of now s c j cl ans] show ?thesis by auto
qed (simp_all add: updateStatus_pairs scheduleInterview_pairs withdraw_pairs pairs_jobs_update
       pairs_users_update)

lemma handle_unique:
  "unique_job_student s \<Longrightarrow> unique_job_student (handle newDate s r)"
  using handle_pairs [of newDate s r] unfolding unique_job_student_def by auto

lemma serve_unique:
  "unique_job_student s \<Longrightarrow> unique_job_student (serve newDate s rs)"
  unfolding serve_def
  by (induction rs arbitrary: s) (simp_all add: handle_unique)

lemma handle_keeps_pairs:
  "p \<in> set (pairs s) \<Longrightarrow> p \<in> set (pairs (handle newDate s r))"
  using handle_pairs [of newDate s r] by auto

lemma serve_keeps_pairs:
  "p \<in> set (pairs s) \<Longrightarrow> p \<in> set (pairs (serve newDate s rs))"
  unfolding serve_def
  by (induction rs arbitrary: s) (simp_all add: handle_keeps_pairs)

lemma count_le_one:
  "distinct (map (\<lambda>a. (job a, student a)) xs) \<Longrightarrow> length (filter (\<lambda>a. job a = j \<and> student a = u) xs) \<le> 1"
proof (induction xs)
  case Nil
  then show ?case by simp
next
  case (Cons x xs)
  show ?case
  proof (cases "job x = j \<and> student x = u")
    case True
    with Cons.prems have "(j, u) \<notin> set (map (\<lambda>a. (job a, student a)) xs)" by auto
    then have "filter (\<lambda>a. job a = j \<and> student a = u) xs = []"
      by (auto simp: filter_empty_conv)
    with True show ?thesis by simp
  next
    case False
    with Cons show ?thesis by auto
  qed
qed

text \<open>
  C2, as stated in the specification, fails in its second half: the job and deadline checks
  come before the duplicate check, so a second submission after the deadline has passed (the
  first one was made at the very instant of the deadline) is answered with \<open>Expired\<close>, not
  \<open>Conflict\<close>.
\<close>

theorem second_submission_counterexample:
  "fst (submitApplication 5 state_D student_S (Id 1) None []) = Inr app_1
   \<and> fst (submitApplication 6 (snd (submitApplication 5 state_D student_S (Id 1) None []))
            student_S (Id 1) None []) = Inl Expired"
  by (simp add: submitApplication_def authorize_def validateApplication_def Job_findById_def
        Application_findOne_def Application_create_def Application_save_def validates_def
        pre_save_def isModified_def incrementApplicationCount_def status_enum_def Let_def
        populate_recruiter_def Job_save_def Job_validates_def required_string_def
        jobType_enum_def add_one_0
        state_D_def job_D_def student_S_def job_J_def app_1_def)

text \<open>
  C2, amended. In every state reached by any sequence of requests from a state whose
  applications satisfy the unique index (an empty collection, for one), each (job, student)
  pair has at most one application. After a successful \<open>submitApplication\<close> and any further
  requests, another \<open>submitApplication\<close> by the same student for the same job fails and
  leaves the state unchanged: with \<open>ValidationError\<close> when its cover letter is too long;
  else with \<open>NotFound\<close> when the job is gone; else with \<open>InvalidState\<close> when the job is not
  active; else with \<open>Expired\<close> when the deadline has passed; else with \<open>Conflict\<close>.
\<close>

theorem one_application_per_pair:
  assumes "unique_job_student s0"
  shows "count_applications (serve newDate s0 rs) jid uid \<le> 1
       \<and> (submitApplication now (serve newDate s0 rs) caller (Id jid) cl ans = (Inr a, s1) \<longrightarrow>
            submitApplication now' (serve newDate s1 rs') caller (Id jid) cl' ans' =
              (Inl (if \<not> validateApplication cl' then ValidationError
                    else case Job_findById (serve newDate s1 rs') jid of
                           None \<Rightarrow> NotFound
                         | Some j \<Rightarrow>
                             if j_status j \<noteq> ''active'' then InvalidState
                             else if deadline_open j now' then Conflict else Expired),
               serve newDate s1 rs'))"
proof -
  from assms have "unique_job_student (serve newDate s0 rs)" by (rule serve_unique)
  then have 1: "count_applications (serve newDate s0 rs) jid uid \<le> 1"
    unfolding unique_job_student_def pairs_def count_applications_def by (rule count_le_one)
  have 2: "submitApplication now' (serve newDate s1 rs') caller (Id jid) cl' ans' =
              (Inl (if \<not> validateApplication cl' then ValidationError
                    else case Job_findById (serve newDate s1 rs') jid of
                           None \<Rightarrow> NotFound
                         | Some j \<Rightarrow>
                             if j_status j \<noteq> ''active'' then InvalidState
                             else if deadline_open j now' then Conflict else Expired),
               serve newDate s1 rs')"
    if r: "submitApplication now (serve newDate s0 rs) caller (Id jid) cl ans = (Inr a, s1)"
  proof -
    define s2 where "s2 = serve newDate s1 rs'"
    from r obtain k rid where st: "u_role caller = Student"
      and a: "a = created now (serve newDate s0 rs) jid (u_id caller) rid cl ans"
      and s1: "s1 = (serve newDate s0 rs)\<lparr>applications := applications (serve newDate s0 rs) @ [a],
                        next_id := Suc (next_id (serve newDate s0 rs)),
                        jobs := replace_job (counted k) (jobs (serve newDate s0 rs))\<rparr>"
      unfolding submitApplication_success by blast
    have "(jid, u_id caller) \<in> set (pairs s1)"
      by (simp add: s1 pairs_def a)
    then have "(jid, u_id caller) \<in> set (pairs s2)"
      unfolding s2_def by (rule serve_keeps_pairs)
    then obtain b where ex: "Application_findOne s2 jid (u_id caller) = Some b"
      using Application_findOne_pairs [of s2 jid "u_id caller"] by auto
    from st have au: "authorize [Student] caller" by (simp add: authorize_def)
    have "submitApplication now' s2 caller (Id jid) cl' ans' =
              (Inl (if \<not> validateApplication cl' then ValidationError
                    else case Job_findById s2 jid of
                           None \<Rightarrow> NotFound
                         | Some j \<Rightarrow>
                             if j_status j \<noteq> ''active'' then InvalidState
                             else if deadline_open j now' then Conflict else Expired),
               s2)"
      unfolding submitApplication_def using au ex
      by (auto split: option.splits)
    then show ?thesis unfolding s2_def .
  qed
  from 1 2 show ?thesis by blast
qed

theorem one_application_per_pair_witness:
  "unique_job_student state_0
   \<and> count_applications
        (serve date_of state_0 [PostApplication 5 student_S (Id 1) None [],
                                PostApplication 6 student_S (Id 1) None []]) 1 10 \<le> 1
   \<and> submitApplication 5 (serve date_of state_0 []) student_S (Id 1) None [] = (Inr app_1, state_1)
   \<and> submitApplication 6 (serve date_of state_1 []) student_S (Id 1) None []
        = (Inl Conflict, serve date_of state_1 [])"
proof -
  have 0: "unique_job_student state_0"
    by (simp add: unique_job_student_def pairs_def state_0_def)
  have r: "submitApplication 5 (serve date_of state_0 []) student_S (Id 1) None [] = (Inr app_1, state_1)"
    using submit_scenario by (simp add: serve_def)
  have j: "validateApplication None
      \<and> Job_findById (serve date_of state_1 []) 1 = Some (job_J\<lparr>applicationCount := Num 1\<rparr>)"
    by (simp add: validateApplication_def Job_findById_def serve_def state_1_def job_J_def)
  from one_application_per_pair [OF 0, where newDate = date_of
      and rs = "[PostApplication 5 student_S (Id 1) None [], PostApplication 6 student_S (Id 1) None []]"
      and jid = 1 and uid = 10]
  have 1: "count_applications
        (serve date_of state_0 [PostApplication 5 student_S (Id 1) None [],
                                PostApplication 6 student_S (Id 1) None []]) 1 10 \<le> 1"
    by simp
  from one_application_per_pair [OF 0, where newDate = date_of and rs = "[]" and jid = 1
      and now = 5 and caller = student_S and cl = None and ans = "[]" and a = app_1
      and ?s1.0 = state_1 and rs' = "[]" and now' = 6 and cl' = None and ans' = "[]"] r j
  have 2: "submitApplication 6 (serve date_of state_1 []) student_S (Id 1) None []
        = (Inl Conflict, serve date_of state_1 [])"
    by (simp add: job_J_def)
  from 0 1 r 2 show ?thesis by blast
qed

end
